theory Spec2Isabelle
  imports Complex_Main "HOL-Library.Word"
begin

section \<open>Pixel grids\<close>

text \<open>
  The tools read and write images through OpenCV: an image is a numpy array of shape
  \<open>(H, W, 3)\<close> and dtype \<open>uint8\<close>. A pixel is its three channel bytes; a grid is the
  list of its rows, top row first. An array read from a file is rectangular and has at
  least one row and one column; \<open>rect h w g\<close> states the shape of \<open>g\<close>.
\<close>

type_synonym pixel = "8 word \<times> 8 word \<times> 8 word"

type_synonym grid = "pixel list list"

definition black :: pixel where
  "black = (0, 0, 0)"

definition gray :: pixel where
  "gray = (127, 127, 127)"

definition white :: pixel where
  "white = (255, 255, 255)"

definition height :: "grid \<Rightarrow> nat" where
  "height g = length g"

definition width :: "grid \<Rightarrow> nat" where
  "width g = (case g of [] \<Rightarrow> 0 | r # _ \<Rightarrow> length r)"

text \<open>\<open>img.shape[:2]\<close>.\<close>

definition shape :: "grid \<Rightarrow> nat \<times> nat" where
  "shape g = (height g, width g)"

definition rect :: "nat \<Rightarrow> nat \<Rightarrow> grid \<Rightarrow> bool" where
  "rect h w g \<longleftrightarrow> length g = h \<and> list_all (\<lambda>r. length r = w) g"

text \<open>
  \<open>np.all(img == [v, v, v], axis=2)\<close>: the list is converted to an integer array and each
  channel byte is compared with it as an integer, so a \<open>v\<close> outside \<open>0..255\<close> matches no
  pixel.
\<close>

definition channels_equal :: "int \<Rightarrow> pixel \<Rightarrow> bool" where
  "channels_equal v p = (case p of (a, b, c) \<Rightarrow> uint a = v \<and> uint b = v \<and> uint c = v)"

definition np_all_eq :: "int \<Rightarrow> grid \<Rightarrow> bool list list" where
  "np_all_eq v g = map (map (channels_equal v)) g"

definition np_any :: "bool list list \<Rightarrow> bool" where
  "np_any sel = list_ex (list_ex (\<lambda>b. b)) sel"

definition zeros_like :: "grid \<Rightarrow> grid" where
  "zeros_like g = map (map (\<lambda>_. black)) g"

text \<open>
  Assignment through a boolean index, \<open>dst[sel] = src[sel]\<close> and \<open>dst[sel] = c\<close>: the
  selected positions take the new value, the others keep the old one. The selector has
  the shape of the grid at both call sites.
\<close>

definition assign_where :: "bool list list \<Rightarrow> grid \<Rightarrow> grid \<Rightarrow> grid" where
  "assign_where sel dst src =
     map (\<lambda>(s_row, d_row, x_row).
            map (\<lambda>(s, d, x). if s then x else d) (zip s_row (zip d_row x_row)))
         (zip sel (zip dst src))"

definition assign_const_where :: "bool list list \<Rightarrow> grid \<Rightarrow> pixel \<Rightarrow> grid" where
  "assign_const_where sel dst c =
     map (\<lambda>(s_row, d_row). map (\<lambda>(s, d). if s then c else d) (zip s_row d_row))
         (zip sel dst)"

section \<open>The file system\<close>

text \<open>
  A path holds an image that OpenCV can decode, or something else; \<open>cv2.imread\<close> returns
  \<open>None\<close> for a missing path and for a file it cannot decode.
\<close>

datatype stored = Image grid | Undecodable

type_synonym files = "string \<rightharpoonup> stored"

definition imread :: "files \<Rightarrow> string \<Rightarrow> grid option" where
  "imread fs path = (case fs path of Some (Image g) \<Rightarrow> Some g | _ \<Rightarrow> None)"

section \<open>mask_and_label.py\<close>

text \<open>
  \<open>safe_imread\<close> tries \<open>cv2.imread\<close> and then decodes the bytes of the same file; every
  exception gives \<open>None\<close>.
\<close>

definition safe_imread :: "files \<Rightarrow> string \<Rightarrow> grid option" where
  "safe_imread fs filepath =
     (case imread fs filepath of Some img \<Rightarrow> Some img | None \<Rightarrow> imread fs filepath)"

definition extract_defect_mask :: "files \<Rightarrow> string \<Rightarrow> string \<Rightarrow> int \<Rightarrow> grid option" where
  "extract_defect_mask fs label_path mask_path defect_id =
     (case safe_imread fs label_path of
        None \<Rightarrow> None
      | Some label_img \<Rightarrow>
          (case safe_imread fs mask_path of
             None \<Rightarrow> None
           | Some mask_img \<Rightarrow>
               if shape label_img \<noteq> shape mask_img then None
               else let defect_mask = np_all_eq defect_id label_img in
                    if \<not> np_any defect_mask then None
                    else Some (assign_where defect_mask (zeros_like mask_img) mask_img)))"

definition convert_to_gray_white :: "grid \<Rightarrow> grid" where
  "convert_to_gray_white mask_img =
     (let output_img = mask_img;
          black_pixels = np_all_eq 0 mask_img
      in assign_const_where black_pixels output_img gray)"

section \<open>Python and library primitives\<close>

datatype error = FileNotFoundError | ValueError | Cv2Error

text \<open>
  The scripts draw from Python's global random generator and compute the defect ratio
  with float division. Both are capabilities of the run: \<open>rnd env k\<close> is the raw value
  behind the \<open>k\<close>-th draw and \<open>fl env\<close> rounds an exact quotient or product to the float
  Python returns. \<open>rounding\<close> states what is used of IEEE rounding to nearest: it is
  monotone and exact at 0 and 1.
\<close>

record env =
  rnd :: "nat \<Rightarrow> nat"
  fl :: "rat \<Rightarrow> rat"

definition rounding :: "(rat \<Rightarrow> rat) \<Rightarrow> bool" where
  "rounding f \<longleftrightarrow> f 0 = 0 \<and> f 1 = 1 \<and> (\<forall>x y. x \<le> y \<longrightarrow> f x \<le> f y)"

text \<open>
  \<open>random.randint(a, b)\<close> returns an integer of \<open>[a, b]\<close> and raises \<open>ValueError\<close> on an
  empty range; every integer of the range is the result for some raw value.
\<close>

definition randint :: "int \<Rightarrow> int \<Rightarrow> nat \<Rightarrow> error + int" where
  "randint a b raw = (if b < a then Inl ValueError else Inr (a + int raw mod (b - a + 1)))"

definition and_then :: "error + 'a \<Rightarrow> ('a \<Rightarrow> error + 'b) \<Rightarrow> error + 'b" where
  "and_then r f = (case r of Inl e \<Rightarrow> Inl e | Inr x \<Rightarrow> f x)"

text \<open>\<open>int(x)\<close> on a float: truncation towards zero.\<close>

definition py_int :: "rat \<Rightarrow> int" where
  "py_int x = (if 0 \<le> x then \<lfloor>x\<rfloor> else \<lceil>x\<rceil>)"

text \<open>\<open>np.full((h, w, 3), c, dtype=np.uint8)\<close>.\<close>

definition np_full :: "nat \<Rightarrow> nat \<Rightarrow> pixel \<Rightarrow> grid" where
  "np_full h w c = replicate h (replicate w c)"

text \<open>
  \<open>dst[y0:y0+h, x0:x0+w] = src\<close>, where \<open>src\<close> has \<open>h\<close> rows and \<open>w\<close> columns. The
  callers size the canvas so that the block fits. For a block that the canvas cuts short
  numpy raises \<open>ValueError\<close> unless the shapes still broadcast (a source one pixel high
  or wide); the model reports \<open>ValueError\<close> there, and no caller reaches that case.
\<close>

definition paste_row :: "nat \<Rightarrow> 'a list \<Rightarrow> 'a list \<Rightarrow> 'a list" where
  "paste_row x0 src dst = take x0 dst @ src @ drop (x0 + length src) dst"

definition assign_block :: "nat \<Rightarrow> nat \<Rightarrow> grid \<Rightarrow> grid \<Rightarrow> error + grid" where
  "assign_block y0 x0 src dst =
     (if y0 + height src \<le> height dst \<and> x0 + width src \<le> width dst
      then Inr (take y0 dst
                @ map (\<lambda>(s, d). paste_row x0 s d) (zip src (drop y0 dst))
                @ drop (y0 + height src) dst)
      else Inl ValueError)"

text \<open>
  A Python slice \<open>xs[start:stop]\<close>: a negative bound counts from the end, and both bounds
  are clipped to the list.
\<close>

definition slice_bound :: "int \<Rightarrow> nat \<Rightarrow> nat" where
  "slice_bound i n = (if i < 0 then nat (i + int n) else min (nat i) n)"

definition py_slice :: "int \<Rightarrow> int \<Rightarrow> 'a list \<Rightarrow> 'a list" where
  "py_slice start stop xs =
     (let a = slice_bound start (length xs); b = slice_bound stop (length xs)
      in take (b - a) (drop a xs))"

text \<open>\<open>np.sum\<close> of a boolean array: the number of its true entries.\<close>

definition np_sum :: "bool list list \<Rightarrow> nat" where
  "np_sum sel = sum_list (map (\<lambda>r. length (filter (\<lambda>b. b) r)) sel)"

text \<open>\<open>cv2.cvtColor\<close> between RGB and BGR swaps the first and the third channel.\<close>

definition cvtColor :: "grid \<Rightarrow> grid" where
  "cvtColor g = map (map (\<lambda>(a, b, c). (c, b, a))) g"

subsection \<open>Paths and strings\<close>

text \<open>
  \<open>os.path.basename\<close>, \<open>os.path.splitext\<close> and \<open>os.path.join\<close> for paths separated by
  \<open>/\<close>; \<open>str.lower\<close> on the ASCII letters; \<open>sub in s\<close>; \<open>s.split(sep)\<close> for a non-empty
  separator; \<open>str(n)\<close> for a natural number.
\<close>

definition basename :: "string \<Rightarrow> string" where
  "basename p = rev (takeWhile (\<lambda>c. c \<noteq> CHR ''/'') (rev p))"

definition splitext :: "string \<Rightarrow> string \<times> string" where
  "splitext p =
     (let name = basename p;
          dir = take (length p - length name) p;
          upto_dot = dropWhile (\<lambda>c. c \<noteq> CHR ''.'') (rev name)
      in if upto_dot = [] then (p, [])
         else let root = rev (tl upto_dot) in
              if list_all (\<lambda>c. c = CHR ''.'') root then (p, [])
              else (dir @ root, drop (length root) name))"

definition join :: "string \<Rightarrow> string \<Rightarrow> string" where
  "join a b =
     (if b \<noteq> [] \<and> hd b = CHR ''/'' then b
      else if a = [] \<or> last a = CHR ''/'' then a @ b
      else a @ ''/'' @ b)"

definition lower :: "string \<Rightarrow> string" where
  "lower s =
     map (\<lambda>c. case map_of (zip ''ABCDEFGHIJKLMNOPQRSTUVWXYZ'' ''abcdefghijklmnopqrstuvwxyz'') c of
                 Some d \<Rightarrow> d | None \<Rightarrow> c) s"

fun contains :: "string \<Rightarrow> string \<Rightarrow> bool" where
  "contains sub [] = (sub = [])"
| "contains sub (c # cs) = (take (length sub) (c # cs) = sub \<or> contains sub cs)"

fun split_from :: "string \<Rightarrow> nat \<Rightarrow> string \<Rightarrow> string \<Rightarrow> string list" where
  "split_from sep skip acc [] = [rev acc]"
| "split_from sep skip acc (c # cs) =
     (if 0 < skip then split_from sep (skip - 1) acc cs
      else if take (length sep) (c # cs) = sep
           then rev acc # split_from sep (length sep - 1) [] cs
           else split_from sep 0 (c # acc) cs)"

definition str_split :: "string \<Rightarrow> string \<Rightarrow> string list" where
  "str_split sep s = split_from sep 0 [] s"

fun str :: "nat \<Rightarrow> string" where
  "str n = (if n < 10 then [''0123456789'' ! n] else str (n div 10) @ [''0123456789'' ! (n mod 10)])"

declare str.simps [simp del]

definition supported_ext :: "string \<Rightarrow> string" where
  "supported_ext ext =
     (if lower ext \<notin> set [''.png'', ''.jpg'', ''.jpeg'', ''.bmp'', ''.tiff''] then ''.png'' else ext)"

section \<open>The state of a run\<close>

text \<open>
  What a script prints is kept as a list of events, newest last. The messages are
  abstracted to what they report.
\<close>

datatype event =
    Processing string string
  | Reported error string
  | Unexpected error string
  | CropSizeClamped int
  | CannotCrop int
  | AttemptRatio nat rat
  | Saved string string
  | TooSmallSkipped string
  | MaskNotFound string

text \<open>
  \<open>written\<close> lists the paths handed to a successful \<open>cv2.imwrite\<close>, oldest first;
  \<open>draws\<close> counts the random draws made so far; \<open>processed_image_count\<close> is the global
  counter of \<open>process_allinone.py\<close>. Directories are not modelled: every output
  directory is taken to exist (the batch entry points create them first), so
  \<open>os.makedirs\<close> changes nothing and \<open>cv2.imwrite\<close> stores the file. \<open>cv2.imwrite\<close>
  raises \<open>cv2.error\<close> on an empty image.
\<close>

record world =
  files :: files
  written :: "string list"
  draws :: nat
  stdout :: "event list"
  processed_image_count :: nat

definition say :: "event \<Rightarrow> world \<Rightarrow> world" where
  "say e w = w\<lparr>stdout := stdout w @ [e]\<rparr>"

definition exists_path :: "world \<Rightarrow> string \<Rightarrow> bool" where
  "exists_path w p \<longleftrightarrow> files w p \<noteq> None"

definition imwrite :: "string \<Rightarrow> grid \<Rightarrow> world \<Rightarrow> error option \<times> world" where
  "imwrite name img w =
     (if height img = 0 \<or> width img = 0 then (Some Cv2Error, w)
      else (None, w\<lparr>files := (files w)(name \<mapsto> Image img), written := written w @ [name]\<rparr>))"

section \<open>expand_good.py\<close>

text \<open>
  \<open>cv2.copyMakeBorder(src, t, b, l, r, cv2.BORDER_CONSTANT, value=c)\<close>: \<open>src\<close> framed by
  \<open>t\<close> rows above, \<open>b\<close> rows below, \<open>l\<close> columns on the left and \<open>r\<close> columns on the
  right, all of colour \<open>c\<close>.
\<close>

definition copyMakeBorder :: "grid \<Rightarrow> nat \<Rightarrow> nat \<Rightarrow> nat \<Rightarrow> nat \<Rightarrow> pixel \<Rightarrow> grid" where
  "copyMakeBorder src t b l r c =
     (let line = replicate (l + width src + r) c
      in replicate t line @ map (\<lambda>row. replicate l c @ row @ replicate r c) src @ replicate b line)"

text \<open>
  One pass of the loop of \<open>expand_image_no_mask_cv2\<close>, up to the expanded image; the
  target side is the constant 256.
\<close>

definition expand_no_mask_once :: "env \<Rightarrow> grid \<Rightarrow> nat \<Rightarrow> error + grid \<times> nat" where
  "expand_no_mask_once env original_image k =
     (let h = int (height original_image); w = int (width original_image); l = 256 in
      if h < w then
        and_then (randint 0 (l - h) (rnd env k)) (\<lambda>padding_top.
          let padding_bottom = (l - h) - padding_top in
          Inr (copyMakeBorder original_image (nat padding_top) (nat padding_bottom) 0 0 gray, k + 1))
      else if w < h then
        and_then (randint 0 (l - w) (rnd env k)) (\<lambda>padding_left.
          let padding_right = (l - w) - padding_left in
          Inr (copyMakeBorder original_image 0 0 (nat padding_left) (nat padding_right) gray, k + 1))
      else Inr (original_image, k))"

section \<open>expand.py\<close>

text \<open>
  One pass of the loop of \<open>expand_image\<close>, up to the expanded pair. The target side is the
  constant 512, the padding \<open>l - h\<close> is not clamped, and one draw places both the
  original and the mask. \<open>k\<close> is the number of draws made before; the result carries the
  number after.
\<close>

definition expand_once :: "env \<Rightarrow> grid \<Rightarrow> grid \<Rightarrow> nat \<Rightarrow> error + grid \<times> grid \<times> nat" where
  "expand_once env original_image mask_image k =
     (let h = int (height original_image); w = int (width original_image); l = 512 in
      if h < w then
        and_then (randint 0 (l - h) (rnd env k)) (\<lambda>padding_top.
        and_then (assign_block (nat padding_top) 0 original_image (np_full (nat l) (nat w) gray))
          (\<lambda>expanded_original.
        and_then (assign_block (nat padding_top) 0 mask_image (np_full (nat l) (nat w) gray))
          (\<lambda>expanded_mask. Inr (expanded_original, expanded_mask, k + 1))))
      else if w < h then
        and_then (randint 0 (l - w) (rnd env k)) (\<lambda>padding_left.
        and_then (assign_block 0 (nat padding_left) original_image (np_full (nat h) (nat l) gray))
          (\<lambda>expanded_original.
        and_then (assign_block 0 (nat padding_left) mask_image (np_full (nat h) (nat l) gray))
          (\<lambda>expanded_mask. Inr (expanded_original, expanded_mask, k + 1))))
      else Inr (original_image, mask_image, k))"

text \<open>
  The loop over \<open>range(num_expansions)\<close>: \<open>n\<close> passes are left and \<open>i\<close> is the loop
  variable. An exception ends the loop and leaves the files written so far.
\<close>

fun expand_loop ::
  "env \<Rightarrow> string \<Rightarrow> grid \<Rightarrow> grid \<Rightarrow> string \<Rightarrow> string \<Rightarrow> nat \<Rightarrow> nat \<Rightarrow> world
     \<Rightarrow> error option \<times> world" where
  "expand_loop env original_path original_image mask_image output_original_dir output_mask_dir
     0 i w = (None, w)"
| "expand_loop env original_path original_image mask_image output_original_dir output_mask_dir
     (Suc n) i w =
     (case expand_once env original_image mask_image (draws w) of
        Inl e \<Rightarrow> (Some e, w)
      | Inr (expanded_original, expanded_mask, k) \<Rightarrow>
          let (base_name, ext) = splitext (basename original_path);
              output_original_name =
                join output_original_dir (base_name @ ''_expanded_'' @ str (i + 1) @ ext);
              output_mask_name =
                join output_mask_dir (base_name @ ''_expanded_'' @ str (i + 1) @ ''_mask'' @ ext)
          in case imwrite output_original_name (cvtColor expanded_original) (w\<lparr>draws := k\<rparr>) of
               (Some e, w1) \<Rightarrow> (Some e, w1)
             | (None, w1) \<Rightarrow>
                 (case imwrite output_mask_name (cvtColor expanded_mask) w1 of
                    (Some e, w2) \<Rightarrow> (Some e, w2)
                  | (None, w2) \<Rightarrow>
                      expand_loop env original_path original_image mask_image
                        output_original_dir output_mask_dir n (Suc i)
                        (say (Saved output_original_name output_mask_name) w2)))"

definition expand_image ::
  "env \<Rightarrow> string \<Rightarrow> grid \<Rightarrow> grid \<Rightarrow> int \<Rightarrow> string \<Rightarrow> string \<Rightarrow> world \<Rightarrow> error option \<times> world" where
  "expand_image env original_path original_image mask_image num_expansions
     output_original_dir output_mask_dir w =
     (if width original_image \<noteq> width mask_image \<or> height original_image \<noteq> height mask_image
      then (Some ValueError, w)
      else expand_loop env original_path original_image mask_image
             output_original_dir output_mask_dir (nat num_expansions) 0 w)"

section \<open>Crop candidates\<close>

text \<open>
  \<open>crop.py\<close> and \<open>process_allinone.py\<close> draw and measure a candidate with the same
  statements: two draws for the top-left corner, the same slice of the original and of
  the mask, and the share of white pixels in the mask crop.
\<close>

definition crop_window :: "int \<Rightarrow> int \<Rightarrow> int \<Rightarrow> grid \<Rightarrow> grid" where
  "crop_window start_y start_x crop_size img =
     map (py_slice start_x (start_x + crop_size)) (py_slice start_y (start_y + crop_size) img)"

definition defect_percentage :: "env \<Rightarrow> grid \<Rightarrow> int \<Rightarrow> rat" where
  "defect_percentage env cropped_mask crop_size =
     (let is_defect_pixel = np_all_eq 255 cropped_mask;
          defect_pixels_count = np_sum is_defect_pixel;
          total_pixels = crop_size * crop_size
      in if total_pixels > 0 then fl env (of_nat defect_pixels_count / of_int total_pixels)
         else 0)"

record candidate =
  start_x :: int
  start_y :: int
  cropped_original :: grid
  cropped_mask :: grid
  defect_ratio :: rat

definition draw_candidate :: "env \<Rightarrow> grid \<Rightarrow> grid \<Rightarrow> int \<Rightarrow> nat \<Rightarrow> error + candidate" where
  "draw_candidate env original_image mask_image crop_size k =
     (let max_x = int (width original_image) - crop_size;
          max_y = int (height original_image) - crop_size
      in and_then (randint 0 max_x (rnd env k)) (\<lambda>sx.
         and_then (randint 0 max_y (rnd env (k + 1))) (\<lambda>sy.
           Inr \<lparr>start_x = sx, start_y = sy,
                cropped_original = crop_window sy sx crop_size original_image,
                cropped_mask = crop_window sy sx crop_size mask_image,
                defect_ratio =
                  defect_percentage env (crop_window sy sx crop_size mask_image) crop_size\<rparr>)))"

text \<open>The acceptance test: \<open>defect_percentage >= defect_threshold\<close>.\<close>

definition accept :: "rat \<Rightarrow> rat \<Rightarrow> bool" where
  "accept ratio defect_threshold \<longleftrightarrow> ratio \<ge> defect_threshold"

text \<open>
  The candidates that a loop of \<open>n\<close> attempts draws once \<open>k\<close> draws have been made, in
  order: the sequence of the Cropper's contract. Both loops make two draws for each
  attempt whatever the acceptance test says, so the sequence does not depend on the
  threshold.
\<close>

fun crop_candidates :: "env \<Rightarrow> grid \<Rightarrow> grid \<Rightarrow> int \<Rightarrow> nat \<Rightarrow> nat \<Rightarrow> candidate list" where
  "crop_candidates env original_image mask_image crop_size k 0 = []"
| "crop_candidates env original_image mask_image crop_size k (Suc n) =
     (case draw_candidate env original_image mask_image crop_size k of
        Inl e \<Rightarrow> []
      | Inr c \<Rightarrow> c # crop_candidates env original_image mask_image crop_size (k + 2) n)"

section \<open>crop.py\<close>

text \<open>
  The body of the loop of \<open>crop_image\<close> after its size check: attempt \<open>i\<close> with the
  counter of valid crops. It returns the exception raised, if any, the counter and the
  state.
\<close>

definition crop_attempt ::
  "env \<Rightarrow> string \<Rightarrow> string \<Rightarrow> string \<Rightarrow> grid \<Rightarrow> grid \<Rightarrow> int \<Rightarrow> rat \<Rightarrow> nat \<Rightarrow> nat \<Rightarrow> world
     \<Rightarrow> error option \<times> nat \<times> world" where
  "crop_attempt env original_path output_original_dir output_mask_dir original_image mask_image
     crop_size defect_threshold i valid_crop_counter w =
     (case draw_candidate env original_image mask_image crop_size (draws w) of
        Inl e \<Rightarrow> (Some e, valid_crop_counter, w)
      | Inr c \<Rightarrow>
          let w1 = say (AttemptRatio (i + 1) (defect_ratio c)) (w\<lparr>draws := draws w + 2\<rparr>) in
          if accept (defect_ratio c) defect_threshold then
            let (base_name, ext0) = splitext (basename original_path);
                ext = supported_ext ext0;
                output_original_name =
                  join output_original_dir
                    (base_name @ ''_cropped_'' @ str (valid_crop_counter + 1) @ ext);
                output_mask_name =
                  join output_mask_dir
                    (base_name @ ''_cropped_'' @ str (valid_crop_counter + 1) @ ''_mask'' @ ext)
            in case imwrite output_original_name (cropped_original c) w1 of
                 (Some e, w2) \<Rightarrow> (Some e, valid_crop_counter, w2)
               | (None, w2) \<Rightarrow>
                   (case imwrite output_mask_name (cropped_mask c) w2 of
                      (Some e, w3) \<Rightarrow> (Some e, valid_crop_counter, w3)
                    | (None, w3) \<Rightarrow>
                        (None, valid_crop_counter + 1,
                         say (Saved output_original_name output_mask_name) w3))
          else (None, valid_crop_counter, w1))"

fun crop_loop ::
  "env \<Rightarrow> string \<Rightarrow> string \<Rightarrow> string \<Rightarrow> grid \<Rightarrow> grid \<Rightarrow> int \<Rightarrow> rat \<Rightarrow> nat \<Rightarrow> nat \<Rightarrow> nat \<Rightarrow> world
     \<Rightarrow> error option \<times> world" where
  "crop_loop env original_path output_original_dir output_mask_dir original_image mask_image
     crop_size defect_threshold 0 i valid_crop_counter w = (None, w)"
| "crop_loop env original_path output_original_dir output_mask_dir original_image mask_image
     crop_size defect_threshold (Suc n) i valid_crop_counter w =
     (let max_x = int (width original_image) - crop_size;
          max_y = int (height original_image) - crop_size
      in if max_x < 0 \<or> max_y < 0 then (None, say (CannotCrop crop_size) w)
         else case crop_attempt env original_path output_original_dir output_mask_dir
                     original_image mask_image crop_size defect_threshold i valid_crop_counter w of
                (Some e, c, w1) \<Rightarrow> (Some e, w1)
              | (None, c, w1) \<Rightarrow>
                  crop_loop env original_path output_original_dir output_mask_dir
                    original_image mask_image crop_size defect_threshold n (Suc i) c w1)"

text \<open>The body of the \<open>try\<close> of \<open>crop_image\<close>.\<close>

definition crop_image_try ::
  "env \<Rightarrow> string \<Rightarrow> string \<Rightarrow> string \<Rightarrow> string \<Rightarrow> rat \<Rightarrow> rat \<Rightarrow> int \<Rightarrow> world
     \<Rightarrow> error option \<times> world" where
  "crop_image_try env original_path mask_path output_original_dir output_mask_dir
     crop_size_ratio defect_threshold num_crops w =
     (case imread (files w) original_path of
        None \<Rightarrow> (Some FileNotFoundError, w)
      | Some original_image \<Rightarrow>
          (case imread (files w) mask_path of
             None \<Rightarrow> (Some FileNotFoundError, w)
           | Some mask_image \<Rightarrow>
               let original_height = int (height original_image);
                   original_width = int (width original_image);
                   mask_height = int (height mask_image);
                   mask_width = int (width mask_image)
               in if original_width \<noteq> mask_width \<or> original_height \<noteq> mask_height
                  then (Some ValueError, w)
                  else let shorter_side = min original_width original_height;
                           crop_size0 = py_int (fl env (of_int shorter_side * crop_size_ratio));
                           too_large = (crop_size0 > original_width \<or> crop_size0 > original_height);
                           w1 = (if too_large then say (CropSizeClamped crop_size0) w else w);
                           crop_size = (if too_large then shorter_side else crop_size0)
                       in crop_loop env original_path output_original_dir output_mask_dir
                            original_image mask_image crop_size defect_threshold
                            (nat num_crops) 0 0 w1))"

text \<open>
  \<open>crop_image\<close>: the three handlers catch every exception of the body and print it, so
  the call returns normally with the state the exception left.
\<close>

definition crop_image ::
  "env \<Rightarrow> string \<Rightarrow> string \<Rightarrow> string \<Rightarrow> string \<Rightarrow> rat \<Rightarrow> rat \<Rightarrow> int \<Rightarrow> world \<Rightarrow> world" where
  "crop_image env original_path mask_path output_original_dir output_mask_dir
     crop_size_ratio defect_threshold num_crops w =
     (case crop_image_try env original_path mask_path output_original_dir output_mask_dir
             crop_size_ratio defect_threshold num_crops w of
        (None, w1) \<Rightarrow> w1
      | (Some FileNotFoundError, w1) \<Rightarrow> say (Reported FileNotFoundError original_path) w1
      | (Some ValueError, w1) \<Rightarrow> say (Reported ValueError original_path) w1
      | (Some e, w1) \<Rightarrow> say (Unexpected e original_path) w1)"

text \<open>
  \<open>batch_crop_images\<close>. \<open>listing\<close> is what \<open>os.listdir(expanded_original_dir)\<close> returns;
  the files to process are chosen once, before the loop. One pass of the loop pairs an
  original with its mask by name and calls \<open>crop_image\<close> with the default ratio 1.0.
\<close>

definition mask_file_of :: "string \<Rightarrow> string" where
  "mask_file_of original_file =
     (let (base_name, ext) = splitext original_file;
          mask_file_name_parts = str_split ''_expanded_'' base_name
      in if length mask_file_name_parts > 1
         then (mask_file_name_parts ! 0 @ ''_expanded_'' @ mask_file_name_parts ! 1) @ ''_mask'' @ ext
         else base_name @ ''_mask'' @ ext)"

definition batch_crop_step ::
  "env \<Rightarrow> string \<Rightarrow> string \<Rightarrow> string \<Rightarrow> string \<Rightarrow> rat \<Rightarrow> int \<Rightarrow> string \<Rightarrow> world \<Rightarrow> world" where
  "batch_crop_step env expanded_original_dir expanded_mask_dir output_original_dir output_mask_dir
     defect_threshold num_crops original_file w =
     (let mask_file = mask_file_of original_file;
          original_path = join expanded_original_dir original_file;
          mask_path = join expanded_mask_dir mask_file
      in if exists_path w mask_path
         then crop_image env original_path mask_path output_original_dir output_mask_dir
                1 defect_threshold num_crops (say (Processing original_file mask_file) w)
         else say (MaskNotFound mask_file) w)"

fun batch_crop_loop ::
  "env \<Rightarrow> string \<Rightarrow> string \<Rightarrow> string \<Rightarrow> string \<Rightarrow> rat \<Rightarrow> int \<Rightarrow> string list \<Rightarrow> world \<Rightarrow> world" where
  "batch_crop_loop env expanded_original_dir expanded_mask_dir output_original_dir output_mask_dir
     defect_threshold num_crops [] w = w"
| "batch_crop_loop env expanded_original_dir expanded_mask_dir output_original_dir output_mask_dir
     defect_threshold num_crops (original_file # original_files) w =
     batch_crop_loop env expanded_original_dir expanded_mask_dir output_original_dir output_mask_dir
       defect_threshold num_crops original_files
       (batch_crop_step env expanded_original_dir expanded_mask_dir output_original_dir
          output_mask_dir defect_threshold num_crops original_file w)"

definition batch_crop_images ::
  "env \<Rightarrow> string list \<Rightarrow> string \<Rightarrow> string \<Rightarrow> string \<Rightarrow> string \<Rightarrow> rat \<Rightarrow> int \<Rightarrow> world \<Rightarrow> world" where
  "batch_crop_images env listing expanded_original_dir expanded_mask_dir output_original_dir
     output_mask_dir defect_threshold num_crops w =
     (let original_files =
            filter (\<lambda>f. exists_path w (join expanded_original_dir f) \<and> \<not> contains ''_mask'' f)
              listing
      in batch_crop_loop env expanded_original_dir expanded_mask_dir output_original_dir
           output_mask_dir defect_threshold num_crops original_files w)"

section \<open>process_allinone.py\<close>

text \<open>
  The expansion step of \<open>process_image_pair\<close>: each axis is padded by its own clamped
  amount, and the pair is left as it is when neither axis needs padding.
\<close>

definition expand_pair :: "env \<Rightarrow> int \<Rightarrow> grid \<Rightarrow> grid \<Rightarrow> nat \<Rightarrow> error + grid \<times> grid \<times> nat" where
  "expand_pair env expansion_target_size original_image mask_image k =
     (let h = int (height original_image); w = int (width original_image);
          padding_h = max 0 (expansion_target_size - h);
          padding_w = max 0 (expansion_target_size - w)
      in if padding_h > 0 \<or> padding_w > 0 then
           and_then (randint 0 padding_h (rnd env k)) (\<lambda>padding_top.
           and_then (randint 0 padding_w (rnd env (k + 1))) (\<lambda>padding_left.
             let new_height = h + padding_h; new_width = w + padding_w in
             and_then (assign_block (nat padding_top) (nat padding_left) original_image
                         (np_full (nat new_height) (nat new_width) gray)) (\<lambda>expanded_original.
             and_then (assign_block (nat padding_top) (nat padding_left) mask_image
                         (np_full (nat new_height) (nat new_width) gray)) (\<lambda>expanded_mask.
               Inr (expanded_original, expanded_mask, k + 2)))))
         else Inr (original_image, mask_image, k))"

text \<open>One pass of the inner loop: a candidate, and its two files when it is accepted.\<close>

definition pair_attempt ::
  "env \<Rightarrow> string \<Rightarrow> string \<Rightarrow> string \<Rightarrow> grid \<Rightarrow> grid \<Rightarrow> int \<Rightarrow> rat \<Rightarrow> world
     \<Rightarrow> error option \<times> world" where
  "pair_attempt env ext output_original_dir output_mask_dir expanded_original expanded_mask
     crop_size defect_threshold w =
     (case draw_candidate env expanded_original expanded_mask crop_size (draws w) of
        Inl e \<Rightarrow> (Some e, w)
      | Inr c \<Rightarrow>
          let w1 = w\<lparr>draws := draws w + 2\<rparr> in
          if accept (defect_ratio c) defect_threshold then
            let w2 = w1\<lparr>processed_image_count := processed_image_count w1 + 1\<rparr>;
                output_original_name =
                  join output_original_dir (str (processed_image_count w2) @ ext);
                output_mask_name =
                  join output_mask_dir (str (processed_image_count w2) @ ''_mask'' @ ext)
            in case imwrite output_original_name (cropped_original c) w2 of
                 (Some e, w3) \<Rightarrow> (Some e, w3)
               | (None, w3) \<Rightarrow>
                   (case imwrite output_mask_name (cropped_mask c) w3 of
                      (Some e, w4) \<Rightarrow> (Some e, w4)
                    | (None, w4) \<Rightarrow>
                        (None, say (Saved output_original_name output_mask_name) w4))
          else (None, w1))"

fun pair_crop_loop ::
  "env \<Rightarrow> string \<Rightarrow> string \<Rightarrow> string \<Rightarrow> grid \<Rightarrow> grid \<Rightarrow> int \<Rightarrow> rat \<Rightarrow> nat \<Rightarrow> world
     \<Rightarrow> error option \<times> world" where
  "pair_crop_loop env ext output_original_dir output_mask_dir expanded_original expanded_mask
     crop_size defect_threshold 0 w = (None, w)"
| "pair_crop_loop env ext output_original_dir output_mask_dir expanded_original expanded_mask
     crop_size defect_threshold (Suc n) w =
     (case pair_attempt env ext output_original_dir output_mask_dir expanded_original
             expanded_mask crop_size defect_threshold w of
        (Some e, w1) \<Rightarrow> (Some e, w1)
      | (None, w1) \<Rightarrow>
          pair_crop_loop env ext output_original_dir output_mask_dir expanded_original
            expanded_mask crop_size defect_threshold n w1)"

text \<open>The outer loop over \<open>range(num_augmentations)\<close>.\<close>

fun augment_loop ::
  "env \<Rightarrow> string \<Rightarrow> string \<Rightarrow> string \<Rightarrow> string \<Rightarrow> grid \<Rightarrow> grid \<Rightarrow> int \<Rightarrow> rat \<Rightarrow> int \<Rightarrow> int
     \<Rightarrow> nat \<Rightarrow> world \<Rightarrow> error option \<times> world" where
  "augment_loop env base_name ext output_original_dir output_mask_dir original_image mask_image
     num_crops_per_aug defect_threshold expansion_target_size crop_size 0 w = (None, w)"
| "augment_loop env base_name ext output_original_dir output_mask_dir original_image mask_image
     num_crops_per_aug defect_threshold expansion_target_size crop_size (Suc n) w =
     (case expand_pair env expansion_target_size original_image mask_image (draws w) of
        Inl e \<Rightarrow> (Some e, w)
      | Inr (expanded_original, expanded_mask, k) \<Rightarrow>
          let w1 = w\<lparr>draws := k\<rparr>;
              exp_h = int (height expanded_original);
              exp_w = int (width expanded_original)
          in if crop_size > exp_w \<or> crop_size > exp_h
             then augment_loop env base_name ext output_original_dir output_mask_dir
                    original_image mask_image num_crops_per_aug defect_threshold
                    expansion_target_size crop_size n (say (TooSmallSkipped base_name) w1)
             else case pair_crop_loop env ext output_original_dir output_mask_dir
                         expanded_original expanded_mask crop_size defect_threshold
                         (nat num_crops_per_aug) w1 of
                    (Some e, w2) \<Rightarrow> (Some e, w2)
                  | (None, w2) \<Rightarrow>
                      augment_loop env base_name ext output_original_dir output_mask_dir
                        original_image mask_image num_crops_per_aug defect_threshold
                        expansion_target_size crop_size n w2)"

definition process_image_pair_try ::
  "env \<Rightarrow> string \<Rightarrow> string \<Rightarrow> string \<Rightarrow> string \<Rightarrow> int \<Rightarrow> int \<Rightarrow> rat \<Rightarrow> int \<Rightarrow> int \<Rightarrow> world
     \<Rightarrow> error option \<times> world" where
  "process_image_pair_try env original_path mask_path output_original_dir output_mask_dir
     num_augmentations num_crops_per_aug defect_threshold expansion_target_size crop_size w =
     (case (imread (files w) original_path, imread (files w) mask_path) of
        (Some original_image, Some mask_image) \<Rightarrow>
          if shape original_image \<noteq> shape mask_image then (Some ValueError, w)
          else let (base_name, ext0) = splitext (basename original_path);
                   ext = supported_ext ext0
               in augment_loop env base_name ext output_original_dir output_mask_dir
                    original_image mask_image num_crops_per_aug defect_threshold
                    expansion_target_size crop_size (nat num_augmentations) w
      | _ \<Rightarrow> (Some FileNotFoundError, w))"

text \<open>\<open>process_image_pair\<close>: \<open>except Exception\<close> catches and prints every exception.\<close>

definition process_image_pair ::
  "env \<Rightarrow> string \<Rightarrow> string \<Rightarrow> string \<Rightarrow> string \<Rightarrow> int \<Rightarrow> int \<Rightarrow> rat \<Rightarrow> int \<Rightarrow> int \<Rightarrow> world
     \<Rightarrow> world" where
  "process_image_pair env original_path mask_path output_original_dir output_mask_dir
     num_augmentations num_crops_per_aug defect_threshold expansion_target_size crop_size w =
     (case process_image_pair_try env original_path mask_path output_original_dir output_mask_dir
             num_augmentations num_crops_per_aug defect_threshold expansion_target_size
             crop_size w of
        (None, w1) \<Rightarrow> w1
      | (Some e, w1) \<Rightarrow> say (Reported e original_path) w1)"

section \<open>Properties\<close>

subsection \<open>Grids, padding and draws\<close>

lemma rect_height: "rect h w g \<Longrightarrow> height g = h"
  by (simp add: rect_def height_def)

lemma rect_width: "rect h w g \<Longrightarrow> 0 < h \<Longrightarrow> width g = w"
  by (cases g) (auto simp: rect_def width_def)

lemma rect_np_full: "rect h w (np_full h w c)"
  by (simp add: rect_def np_full_def list_all_length)

lemma randint_range:
  "a \<le> b \<Longrightarrow> \<exists>r. randint a b raw = Inr r \<and> a \<le> r \<and> r \<le> b"
proof -
  assume ab: "a \<le> b"
  have pos: "0 < b - a + 1"
    using ab by linarith
  have "int raw mod (b - a + 1) < b - a + 1"
    by (rule pos_mod_bound[OF pos])
  then have le: "a + int raw mod (b - a + 1) \<le> b"
    by linarith
  have ge: "a \<le> a + int raw mod (b - a + 1)"
    using pos_mod_sign[OF pos, of "int raw"] by linarith
  have "randint a b raw = Inr (a + int raw mod (b - a + 1))"
    using ab by (simp add: randint_def)
  with le ge show ?thesis by blast
qed

lemma randint_onto: "a \<le> r \<Longrightarrow> r \<le> b \<Longrightarrow> randint a b (nat (r - a)) = Inr r"
  by (simp add: randint_def)

lemma paste_row_replicate:
  "x0 + length s \<le> n \<Longrightarrow>
   paste_row x0 s (replicate n c) = replicate x0 c @ s @ replicate (n - x0 - length s) c"
  by (simp add: paste_row_def min_def)

lemma map_zip_replicate:
  "length xs \<le> n \<Longrightarrow> map (\<lambda>(s, d). f s d) (zip xs (replicate n y)) = map (\<lambda>s. f s y) xs"
proof (induction xs arbitrary: n)
  case Nil then show ?case by simp
next
  case (Cons x xs)
  then obtain m where "n = Suc m" by (cases n) auto
  with Cons show ?case by simp
qed

lemma assign_block_np_full:
  assumes r: "rect h w src" and h: "0 < h" and y: "y0 + h \<le> H" and x: "x0 + w \<le> W"
  shows "assign_block y0 x0 src (np_full H W c)
         = Inr (copyMakeBorder src y0 (H - y0 - h) x0 (W - x0 - w) c)"
proof -
  have hs: "height src = h" and ws: "width src = w"
    using r h by (simp_all add: rect_height rect_width)
  have H: "0 < H" using h y by simp
  have hd: "height (np_full H W c) = H" "width (np_full H W c) = W"
    using H rect_height[OF rect_np_full] rect_width[OF rect_np_full] by simp_all
  have rows: "map (\<lambda>(s, d). paste_row x0 s d) (zip src (replicate (H - y0) (replicate W c)))
              = map (\<lambda>row. replicate x0 c @ row @ replicate (W - x0 - w) c) src"
  proof -
    have len: "length src \<le> H - y0" using r y by (simp add: rect_def)
    have "map (\<lambda>(s, d). paste_row x0 s d) (zip src (replicate (H - y0) (replicate W c)))
          = map (\<lambda>s. paste_row x0 s (replicate W c)) src"
      by (rule map_zip_replicate[OF len])
    also have "\<dots> = map (\<lambda>row. replicate x0 c @ row @ replicate (W - x0 - w) c) src"
      using r x by (auto simp: rect_def list_all_iff paste_row_replicate)
    finally show ?thesis .
  qed
  have W': "x0 + w + (W - x0 - w) = W" using x by simp
  show ?thesis
    using y x
    by (simp add: assign_block_def hs ws hd copyMakeBorder_def Let_def W')
       (simp add: np_full_def rows min_def)
qed

lemma rect_copyMakeBorder:
  "rect h w src \<Longrightarrow> 0 < h \<Longrightarrow> rect (t + h + b) (l + w + r) (copyMakeBorder src t b l r c)"
  by (simp add: copyMakeBorder_def Let_def rect_width) (auto simp: rect_def list_all_iff)

lemma copyMakeBorder_nth:
  assumes "rect h w src" "i < h" "j < w"
  shows "copyMakeBorder src t b l r c ! (t + i) ! (l + j) = src ! i ! j"
  using assms
  by (simp add: copyMakeBorder_def Let_def nth_append rect_def list_all_length)

lemma copyMakeBorder_0: "copyMakeBorder src 0 0 0 0 c = src"
  by (simp add: copyMakeBorder_def Let_def map_idI)

subsection \<open>Expansion\<close>

lemma expand_pair_eq:
  assumes ro: "rect h w original_image" and rm: "rect h w mask_image"
    and h: "0 < h" and w: "0 < w"
  shows "\<exists>lead_y lead_x.
           lead_y \<le> nat (max 0 (L - int h)) \<and> lead_x \<le> nat (max 0 (L - int w))
         \<and> expand_pair env L original_image mask_image k
             = Inr (copyMakeBorder original_image lead_y (nat (max 0 (L - int h)) - lead_y)
                      lead_x (nat (max 0 (L - int w)) - lead_x) gray,
                    copyMakeBorder mask_image lead_y (nat (max 0 (L - int h)) - lead_y)
                      lead_x (nat (max 0 (L - int w)) - lead_x) gray,
                    if L \<le> int h \<and> L \<le> int w then k else k + 2)"
proof (cases "L \<le> int h \<and> L \<le> int w")
  case True
  then have "expand_pair env L original_image mask_image k = Inr (original_image, mask_image, k)"
    using ro rm h by (simp add: expand_pair_def Let_def rect_height rect_width)
  with True show ?thesis
    by (intro exI[of _ 0]) (simp add: copyMakeBorder_0)
next
  case False
  define ph where "ph = max 0 (L - int h)"
  define pw where "pw = max 0 (L - int w)"
  have nn: "0 \<le> ph" "0 \<le> pw" and pos: "0 < ph \<or> 0 < pw"
    using False by (auto simp: ph_def pw_def)
  obtain t where t: "randint 0 ph (rnd env k) = Inr t" "0 \<le> t" "t \<le> ph"
    using randint_range[OF nn(1)] by blast
  obtain l where l: "randint 0 pw (rnd env (k + 1)) = Inr l" "0 \<le> l" "l \<le> pw"
    using randint_range[OF nn(2)] by blast
  have fit: "nat t + h \<le> nat (int h + ph)" "nat l + w \<le> nat (int w + pw)"
    using t l by linarith+
  have bo: "assign_block (nat t) (nat l) original_image (np_full (nat (int h + ph)) (nat (int w + pw)) gray)
        = Inr (copyMakeBorder original_image (nat t) (nat (int h + ph) - nat t - h) (nat l)
                 (nat (int w + pw) - nat l - w) gray)"
    by (rule assign_block_np_full[OF ro h fit])
  have bm: "assign_block (nat t) (nat l) mask_image (np_full (nat (int h + ph)) (nat (int w + pw)) gray)
        = Inr (copyMakeBorder mask_image (nat t) (nat (int h + ph) - nat t - h) (nat l)
                 (nat (int w + pw) - nat l - w) gray)"
    by (rule assign_block_np_full[OF rm h fit])
  have tr: "nat (int h + ph) - (nat t + h) = nat ph - nat t"
    "nat (int w + pw) - (nat l + w) = nat pw - nat l"
    using t l nn by linarith+
  have "expand_pair env L original_image mask_image k
        = Inr (copyMakeBorder original_image (nat t) (nat ph - nat t) (nat l) (nat pw - nat l) gray,
               copyMakeBorder mask_image (nat t) (nat ph - nat t) (nat l) (nat pw - nat l) gray,
               k + 2)"
    using pos ro h l(1)
    by (simp add: expand_pair_def Let_def rect_height rect_width and_then_def t bo bm tr
        flip: ph_def pw_def)
  moreover have "nat t \<le> nat ph" "nat l \<le> nat pw"
    using t l by linarith+
  ultimately have "\<exists>lead_y lead_x.
           lead_y \<le> nat ph \<and> lead_x \<le> nat pw
         \<and> expand_pair env L original_image mask_image k
             = Inr (copyMakeBorder original_image lead_y (nat ph - lead_y)
                      lead_x (nat pw - lead_x) gray,
                    copyMakeBorder mask_image lead_y (nat ph - lead_y)
                      lead_x (nat pw - lead_x) gray,
                    k + 2)"
    by blast
  moreover have "(if L \<le> int h \<and> L \<le> int w then k else k + 2) = k + 2"
    using False by simp
  ultimately show ?thesis
    unfolding ph_def pw_def by simp
qed

lemma expand_once_wide:
  assumes ro: "rect h w original_image" and rm: "rect h w mask_image"
    and h: "0 < h" and hw: "h < w" and le: "h \<le> 512"
  shows "\<exists>lead\<le>512 - h.
           expand_once env original_image mask_image k
             = Inr (copyMakeBorder original_image lead (512 - h - lead) 0 0 gray,
                    copyMakeBorder mask_image lead (512 - h - lead) 0 0 gray, k + 1)"
proof -
  have nn: "(0::int) \<le> 512 - int h" using le by simp
  obtain t where t: "randint 0 (512 - int h) (rnd env k) = Inr t" "0 \<le> t" "t \<le> 512 - int h"
    using randint_range[OF nn] by blast
  have fit: "nat t + h \<le> 512" "0 + w \<le> w"
    using t by linarith+
  have bo: "assign_block (nat t) 0 original_image (np_full 512 w gray)
            = Inr (copyMakeBorder original_image (nat t) (512 - nat t - h) 0 (w - 0 - w) gray)"
    by (rule assign_block_np_full[OF ro h fit])
  have bm: "assign_block (nat t) 0 mask_image (np_full 512 w gray)
            = Inr (copyMakeBorder mask_image (nat t) (512 - nat t - h) 0 (w - 0 - w) gray)"
    by (rule assign_block_np_full[OF rm h fit])
  have tr: "512 - (nat t + h) = 512 - (h + nat t)" by (simp add: add.commute)
  have "expand_once env original_image mask_image k
        = Inr (copyMakeBorder original_image (nat t) (512 - h - nat t) 0 0 gray,
               copyMakeBorder mask_image (nat t) (512 - h - nat t) 0 0 gray, k + 1)"
    using hw ro h
    by (simp add: expand_once_def Let_def rect_height rect_width and_then_def t bo bm tr)
  moreover have "nat t \<le> 512 - h" using t by linarith
  ultimately show ?thesis by blast
qed

lemma expand_once_tall:
  assumes ro: "rect h w original_image" and rm: "rect h w mask_image"
    and h: "0 < h" and wh: "w < h" and le: "w \<le> 512"
  shows "\<exists>lead\<le>512 - w.
           expand_once env original_image mask_image k
             = Inr (copyMakeBorder original_image 0 0 lead (512 - w - lead) gray,
                    copyMakeBorder mask_image 0 0 lead (512 - w - lead) gray, k + 1)"
proof -
  have nn: "(0::int) \<le> 512 - int w" using le by simp
  obtain t where t: "randint 0 (512 - int w) (rnd env k) = Inr t" "0 \<le> t" "t \<le> 512 - int w"
    using randint_range[OF nn] by blast
  have fit: "0 + h \<le> h" "nat t + w \<le> 512"
    using t by linarith+
  have bo: "assign_block 0 (nat t) original_image (np_full h 512 gray)
            = Inr (copyMakeBorder original_image 0 (h - 0 - h) (nat t) (512 - nat t - w) gray)"
    by (rule assign_block_np_full[OF ro h fit])
  have bm: "assign_block 0 (nat t) mask_image (np_full h 512 gray)
            = Inr (copyMakeBorder mask_image 0 (h - 0 - h) (nat t) (512 - nat t - w) gray)"
    by (rule assign_block_np_full[OF rm h fit])
  have tr: "512 - (nat t + w) = 512 - (w + nat t)" by (simp add: add.commute)
  have "expand_once env original_image mask_image k
        = Inr (copyMakeBorder original_image 0 0 (nat t) (512 - w - nat t) gray,
               copyMakeBorder mask_image 0 0 (nat t) (512 - w - nat t) gray, k + 1)"
    using wh ro h
    by (simp add: expand_once_def Let_def rect_height rect_width and_then_def t bo bm tr)
  moreover have "nat t \<le> 512 - w" using t by linarith
  ultimately show ?thesis by blast
qed

lemma expand_once_square:
  "rect h h original_image \<Longrightarrow> 0 < h \<Longrightarrow>
   expand_once env original_image mask_image k = Inr (original_image, mask_image, k)"
  by (simp add: expand_once_def Let_def rect_height rect_width)

text \<open>
  \<open>expand_image\<close> does not clamp its padding: with the shorter side above 512 the range
  of the draw is empty and \<open>random.randint\<close> raises.
\<close>

lemma expand_once_raises:
  assumes "rect h w original_image" and "512 < h" and "h < w"
  shows "expand_once env original_image mask_image k = Inl ValueError"
  using assms
  by (simp add: expand_once_def Let_def rect_height rect_width and_then_def randint_def)

text \<open>
  C1 speaks of one expansion that pads the shorter axis only. \<open>process_image_pair\<close> pads
  each axis that is below the target: a pair one pixel high and two wide, expanded to
  target 3, gets a 3 by 3 canvas, so its width grows as well.
\<close>

theorem expand_pads_both_axes:
  "expand_pair \<lparr>rnd = \<lambda>k. 1, fl = \<lambda>x. x\<rparr> 3 [[white, white]] [[black, black]] 0
   = Inr ([[gray, gray, gray], [gray, white, white], [gray, gray, gray]],
          [[gray, gray, gray], [gray, black, black], [gray, gray, gray]], 2)"
  by (simp add: expand_pair_def Let_def height_def width_def randint_def and_then_def
      assign_block_def np_full_def paste_row_def numeral_2_eq_2 numeral_3_eq_3)

text \<open>
  C1, amended. In \<open>process_image_pair\<close> each axis is padded by its own amount
  \<open>max(0, L - dim)\<close>, the lead on each axis is drawn in \<open>[0, padding]\<close> and the trail is
  the rest, original and mask get the same frame of gray, and the step never fails; so
  only the height grows when \<open>h < L \<le> w\<close>, both axes grow when both are below \<open>L\<close>, and
  the pair passes through unchanged when \<open>L\<close> is at most both dimensions. In
  \<open>expand_image\<close>, whose target is the constant 512, a pair with \<open>h < w\<close> and \<open>h \<le> 512\<close>
  is padded on the height axis only, by \<open>512 - h\<close> with the lead drawn in
  \<open>[0, 512 - h]\<close>, and symmetrically on the width axis when \<open>w < h\<close> and \<open>w \<le> 512\<close>.
\<close>

theorem expand_padding_amended:
  assumes "rect h w original_image" and "rect h w mask_image" and "0 < h" and "0 < w"
  shows "(\<exists>lead_y lead_x.
            lead_y \<le> nat (max 0 (L - int h)) \<and> lead_x \<le> nat (max 0 (L - int w))
          \<and> expand_pair env L original_image mask_image k
              = Inr (copyMakeBorder original_image lead_y (nat (max 0 (L - int h)) - lead_y)
                       lead_x (nat (max 0 (L - int w)) - lead_x) gray,
                     copyMakeBorder mask_image lead_y (nat (max 0 (L - int h)) - lead_y)
                       lead_x (nat (max 0 (L - int w)) - lead_x) gray,
                     if L \<le> int h \<and> L \<le> int w then k else k + 2))
       \<and> (L \<le> int h \<and> L \<le> int w \<longrightarrow>
            expand_pair env L original_image mask_image k = Inr (original_image, mask_image, k))
       \<and> (h < w \<and> h \<le> 512 \<longrightarrow>
            (\<exists>lead\<le>512 - h.
               expand_once env original_image mask_image k
                 = Inr (copyMakeBorder original_image lead (512 - h - lead) 0 0 gray,
                        copyMakeBorder mask_image lead (512 - h - lead) 0 0 gray, k + 1)))
       \<and> (w < h \<and> w \<le> 512 \<longrightarrow>
            (\<exists>lead\<le>512 - w.
               expand_once env original_image mask_image k
                 = Inr (copyMakeBorder original_image 0 0 lead (512 - w - lead) gray,
                        copyMakeBorder mask_image 0 0 lead (512 - w - lead) gray, k + 1)))"
proof -
  have unchanged: "expand_pair env L original_image mask_image k
                   = Inr (original_image, mask_image, k)" if "L \<le> int h \<and> L \<le> int w"
    using that assms by (simp add: expand_pair_def Let_def rect_height rect_width)
  show ?thesis
    using expand_pair_eq[OF assms, of L env k] unchanged
      expand_once_wide[OF assms(1,2,3), of env k] expand_once_tall[OF assms(1,2,3), of env k]
    by blast
qed

theorem expand_padding_amended_witness:
  "rect 1 2 [[white, black]] \<and> rect 1 2 [[gray, white]]
   \<and> expand_pair \<lparr>rnd = \<lambda>k. 1, fl = \<lambda>x. x\<rparr> 1 [[white, black]] [[gray, white]] 0
       = Inr ([[white, black]], [[gray, white]], 0)
   \<and> (\<exists>lead\<le>511.
         expand_once \<lparr>rnd = \<lambda>k. 1, fl = \<lambda>x. x\<rparr> [[white, black]] [[gray, white]] 0
           = Inr (copyMakeBorder [[white, black]] lead (511 - lead) 0 0 gray,
                  copyMakeBorder [[gray, white]] lead (511 - lead) 0 0 gray, 1))"
proof -
  have r: "rect 1 2 [[white, black]]" "rect 1 2 [[gray, white]]"
    by (simp_all add: rect_def)
  have p: "(0::nat) < 1" "(0::nat) < 2"
    by simp_all
  show ?thesis
    using expand_padding_amended[OF r p, of 1 "\<lparr>rnd = \<lambda>k. 1, fl = \<lambda>x. x\<rparr>" 0] r
    by (simp add: copyMakeBorder_0)
qed

text \<open>
  C6 speaks of every square input. \<open>process_image_pair\<close> pads a square that is smaller
  than the target on both axes: a one-pixel pair expanded to target 2 becomes 2 by 2.
\<close>

theorem expand_square_pads:
  "expand_pair \<lparr>rnd = \<lambda>k. 0, fl = \<lambda>x. x\<rparr> 2 [[white]] [[black]] 0
   = Inr ([[white, gray], [gray, gray]], [[black, gray], [gray, gray]], 2)"
  by (simp add: expand_pair_def Let_def height_def width_def randint_def and_then_def
      assign_block_def np_full_def paste_row_def numeral_2_eq_2)

text \<open>
  C6, amended. \<open>expand_image\<close> and \<open>expand_image_no_mask_cv2\<close> pass every square input
  through unchanged and draw nothing. \<open>process_image_pair\<close> passes a square through
  unchanged when its side is at least the target size, and pads it on both axes up to
  the target otherwise.
\<close>

theorem expand_square_amended:
  assumes "rect h h original_image" and "rect h h mask_image" and "0 < h"
  shows "expand_once env original_image mask_image k = Inr (original_image, mask_image, k)
       \<and> expand_no_mask_once env original_image k = Inr (original_image, k)
       \<and> (L \<le> int h \<longrightarrow>
            expand_pair env L original_image mask_image k = Inr (original_image, mask_image, k))
       \<and> (int h < L \<longrightarrow>
            (\<exists>lead_y lead_x.
               lead_y \<le> nat L - h \<and> lead_x \<le> nat L - h
             \<and> expand_pair env L original_image mask_image k
                 = Inr (copyMakeBorder original_image lead_y (nat L - h - lead_y)
                          lead_x (nat L - h - lead_x) gray,
                        copyMakeBorder mask_image lead_y (nat L - h - lead_y)
                          lead_x (nat L - h - lead_x) gray,
                        k + 2)))"
proof -
  have a: "expand_once env original_image mask_image k = Inr (original_image, mask_image, k)"
    by (rule expand_once_square[OF assms(1,3)])
  have b: "expand_no_mask_once env original_image k = Inr (original_image, k)"
    using assms(1,3) by (simp add: expand_no_mask_once_def Let_def rect_height rect_width)
  have c: "expand_pair env L original_image mask_image k = Inr (original_image, mask_image, k)"
    if "L \<le> int h"
    using that assms by (simp add: expand_pair_def Let_def rect_height rect_width)
  have d: "\<exists>lead_y lead_x.
               lead_y \<le> nat L - h \<and> lead_x \<le> nat L - h
             \<and> expand_pair env L original_image mask_image k
                 = Inr (copyMakeBorder original_image lead_y (nat L - h - lead_y)
                          lead_x (nat L - h - lead_x) gray,
                        copyMakeBorder mask_image lead_y (nat L - h - lead_y)
                          lead_x (nat L - h - lead_x) gray,
                        k + 2)" if lt: "int h < L"
  proof -
    have e: "nat (max 0 (L - int h)) = nat L - h"
      using lt by linarith
    show ?thesis
      using expand_pair_eq[OF assms(1,2,3,3), of L env k] lt unfolding e by simp
  qed
  show ?thesis using a b c d by blast
qed

theorem expand_square_amended_witness:
  "rect 1 1 [[white]] \<and> rect 1 1 [[black]]
   \<and> expand_once \<lparr>rnd = \<lambda>k. 0, fl = \<lambda>x. x\<rparr> [[white]] [[black]] 0 = Inr ([[white]], [[black]], 0)
   \<and> expand_no_mask_once \<lparr>rnd = \<lambda>k. 0, fl = \<lambda>x. x\<rparr> [[white]] 0 = Inr ([[white]], 0)
   \<and> expand_pair \<lparr>rnd = \<lambda>k. 0, fl = \<lambda>x. x\<rparr> 1 [[white]] [[black]] 0
       = Inr ([[white]], [[black]], 0)"
proof -
  have r: "rect 1 1 [[white]]" "rect 1 1 [[black]]"
    by (simp_all add: rect_def)
  show ?thesis
    using expand_square_amended[OF r, of "\<lparr>rnd = \<lambda>k. 0, fl = \<lambda>x. x\<rparr>" 0 1] r
    by simp
qed

subsection \<open>Crop candidates\<close>

lemma channels_equal_255: "channels_equal 255 p \<longleftrightarrow> p = white"
proof -
  have "uint a = 255 \<longleftrightarrow> a = 255" for a :: "8 word"
    by (simp add: word_uint_eq_iff)
  then show ?thesis
    by (cases p) (auto simp: channels_equal_def white_def)
qed

lemma colours:
  "white \<noteq> gray" "gray \<noteq> white" "white \<noteq> black" "black \<noteq> white"
  by (simp_all add: white_def gray_def black_def)

lemma py_slice_inside:
  assumes "0 \<le> s" and "0 \<le> n" and "s + n \<le> int (length xs)"
  shows "py_slice s (s + n) xs = take (nat n) (drop (nat s) xs)"
proof -
  have a: "slice_bound s (length xs) = nat s"
    using assms by (simp add: slice_bound_def)
  have b: "slice_bound (s + n) (length xs) = nat s + nat n"
    using assms by (simp add: slice_bound_def nat_add_distrib)
  show ?thesis
    by (simp add: py_slice_def Let_def a b)
qed

lemma py_slice_length_le:
  assumes "0 \<le> s" and "0 \<le> n"
  shows "length (py_slice s (s + n) xs) \<le> nat n"
proof -
  have a: "slice_bound s (length xs) = min (nat s) (length xs)"
    using assms by (simp add: slice_bound_def)
  have b: "slice_bound (s + n) (length xs) = min (nat s + nat n) (length xs)"
    using assms by (simp add: slice_bound_def nat_add_distrib)
  show ?thesis
    by (simp add: py_slice_def Let_def a b)
qed

lemma crop_window_inside:
  assumes r: "rect H W img" and "0 \<le> sy" and "0 \<le> sx" and "0 \<le> cs"
    and y: "sy + cs \<le> int H" and x: "sx + cs \<le> int W"
  shows "rect (nat cs) (nat cs) (crop_window sy sx cs img)"
    and "i < nat cs \<Longrightarrow> j < nat cs \<Longrightarrow>
         crop_window sy sx cs img ! i ! j = img ! (nat sy + i) ! (nat sx + j)"
proof -
  have len: "length img = H" and row: "\<And>i. i < H \<Longrightarrow> length (img ! i) = W"
    using r by (simp_all add: rect_def list_all_length)
  have rows: "py_slice sy (sy + cs) img = take (nat cs) (drop (nat sy) img)"
    using assms by (intro py_slice_inside) (simp_all add: len)
  have fit: "nat sy + nat cs \<le> H" "nat sx + nat cs \<le> W"
    using assms by linarith+
  have lrows: "length (take (nat cs) (drop (nat sy) img)) = nat cs"
    using fit by (simp add: len)
  have nthrow: "take (nat cs) (drop (nat sy) img) ! i = img ! (nat sy + i)" if "i < nat cs" for i
    using that fit by (simp add: len)
  have cols: "py_slice sx (sx + cs) (img ! (nat sy + i)) = take (nat cs) (drop (nat sx) (img ! (nat sy + i)))"
    if "i < nat cs" for i
    using that assms fit by (intro py_slice_inside) (simp_all add: row)
  have win: "crop_window sy sx cs img ! i = take (nat cs) (drop (nat sx) (img ! (nat sy + i)))"
    if "i < nat cs" for i
  proof -
    have "i < length (take (nat cs) (drop (nat sy) img))"
      using that lrows by simp
    then have "crop_window sy sx cs img ! i
               = py_slice sx (sx + cs) (take (nat cs) (drop (nat sy) img) ! i)"
      unfolding crop_window_def rows by (rule nth_map)
    then show ?thesis
      using that by (simp only: nthrow cols)
  qed
  have lwin: "length (crop_window sy sx cs img) = nat cs"
    unfolding crop_window_def rows length_map by (rule lrows)
  have lrow: "length (crop_window sy sx cs img ! i) = nat cs" if "i < nat cs" for i
    using that fit by (simp add: win row)
  show "rect (nat cs) (nat cs) (crop_window sy sx cs img)"
    using lwin lrow by (simp add: rect_def list_all_length)
  show "crop_window sy sx cs img ! i ! j = img ! (nat sy + i) ! (nat sx + j)"
    if "i < nat cs" "j < nat cs"
    using that fit by (simp add: win row)
qed

lemma draw_candidate_Inr:
  assumes "draw_candidate env original_image mask_image crop_size k = Inr c"
  shows "0 \<le> start_x c \<and> start_x c \<le> int (width original_image) - crop_size
       \<and> 0 \<le> start_y c \<and> start_y c \<le> int (height original_image) - crop_size
       \<and> cropped_original c = crop_window (start_y c) (start_x c) crop_size original_image
       \<and> cropped_mask c = crop_window (start_y c) (start_x c) crop_size mask_image
       \<and> defect_ratio c = defect_percentage env (cropped_mask c) crop_size"
proof -
  let ?mx = "int (width original_image) - crop_size"
  let ?my = "int (height original_image) - crop_size"
  from assms obtain sx sy where
    sx: "randint 0 ?mx (rnd env k) = Inr sx" and sy: "randint 0 ?my (rnd env (k + 1)) = Inr sy"
    and c: "c = \<lparr>start_x = sx, start_y = sy,
                cropped_original = crop_window sy sx crop_size original_image,
                cropped_mask = crop_window sy sx crop_size mask_image,
                defect_ratio =
                  defect_percentage env (crop_window sy sx crop_size mask_image) crop_size\<rparr>"
    by (auto simp: draw_candidate_def Let_def and_then_def split: sum.splits)
  have x: "0 \<le> ?mx" using sx by (auto simp: randint_def split: if_splits)
  have y: "0 \<le> ?my" using sy by (auto simp: randint_def split: if_splits)
  from randint_range[OF x, of "rnd env k"] sx have "0 \<le> sx" "sx \<le> ?mx" by auto
  moreover from randint_range[OF y, of "rnd env (k + 1)"] sy have "0 \<le> sy" "sy \<le> ?my" by auto
  ultimately show ?thesis by (simp add: c)
qed

lemma draw_candidate_total:
  assumes "crop_size \<le> int (width original_image)" and "crop_size \<le> int (height original_image)"
  shows "\<exists>c. draw_candidate env original_image mask_image crop_size k = Inr c"
proof -
  have x: "0 \<le> int (width original_image) - crop_size"
    and y: "0 \<le> int (height original_image) - crop_size"
    using assms by simp_all
  from randint_range[OF x, of "rnd env k"] randint_range[OF y, of "rnd env (k + 1)"]
  show ?thesis
    by (auto simp: draw_candidate_def Let_def and_then_def)
qed

lemma draw_candidate_pixels:
  assumes ro: "rect H W original_image" and rm: "rect H W mask_image" and H: "0 < H"
    and c: "draw_candidate env original_image mask_image crop_size k = Inr c"
    and nn: "0 \<le> crop_size"
  shows "rect (nat crop_size) (nat crop_size) (cropped_original c)
       \<and> rect (nat crop_size) (nat crop_size) (cropped_mask c)
       \<and> (\<forall>i<nat crop_size. \<forall>j<nat crop_size.
              cropped_original c ! i ! j
                = original_image ! (nat (start_y c) + i) ! (nat (start_x c) + j)
            \<and> cropped_mask c ! i ! j
                = mask_image ! (nat (start_y c) + i) ! (nat (start_x c) + j))"
proof -
  have hw: "height original_image = H" "width original_image = W"
    using ro H by (simp_all add: rect_height rect_width)
  note d = draw_candidate_Inr[OF c, unfolded hw]
  have b: "0 \<le> start_x c" "start_x c \<le> int W - crop_size"
    "0 \<le> start_y c" "start_y c \<le> int H - crop_size"
    using d by simp_all
  have y: "start_y c + crop_size \<le> int H" and x: "start_x c + crop_size \<le> int W"
    using b by linarith+
  show ?thesis
    using crop_window_inside[OF ro b(3) b(1) nn y x] crop_window_inside[OF rm b(3) b(1) nn y x] d
    by simp
qed

text \<open>
  C2 speaks of every crop size that is at most both dimensions, and a negative one is.
  On a 3 by 3 image with crop size -1 the corner is drawn in \<open>[0, 4]\<close>: the corner
  \<open>(4, 4)\<close> lies outside the image and the slices taken there are empty, so no window of
  the image is extracted.
\<close>

theorem crop_candidate_negative_size:
  "draw_candidate \<lparr>rnd = \<lambda>k. 4, fl = \<lambda>x. x\<rparr>
     [[white, white, white], [white, white, white], [white, white, white]]
     [[white, white, white], [white, white, white], [white, white, white]] (- 1) 0
   = Inr \<lparr>start_x = 4, start_y = 4, cropped_original = [], cropped_mask = [],
          defect_ratio = 0\<rparr>"
  by (simp add: draw_candidate_def Let_def and_then_def randint_def width_def height_def
      crop_window_def py_slice_def slice_bound_def defect_percentage_def np_all_eq_def
      np_sum_def)

text \<open>
  C2, amended. When the crop size is not negative and at most both dimensions, a
  candidate is drawn, its top-left corner satisfies \<open>0 \<le> x \<le> W - crop_size\<close> and
  \<open>0 \<le> y \<le> H - crop_size\<close>, and the window lies inside the image: both crops are
  \<open>crop_size\<close> by \<open>crop_size\<close> grids whose pixel \<open>(i, j)\<close> is the pixel
  \<open>(y + i, x + j)\<close> of the image.
\<close>

theorem crop_candidate_in_bounds:
  assumes ro: "rect H W original_image" and rm: "rect H W mask_image" and H: "0 < H"
    and nn: "0 \<le> crop_size" and cs: "crop_size \<le> min (int H) (int W)"
  shows "\<exists>c. draw_candidate env original_image mask_image crop_size k = Inr c
           \<and> 0 \<le> start_x c \<and> start_x c \<le> int W - crop_size
           \<and> 0 \<le> start_y c \<and> start_y c \<le> int H - crop_size
           \<and> start_x c + crop_size \<le> int W \<and> start_y c + crop_size \<le> int H
           \<and> rect (nat crop_size) (nat crop_size) (cropped_original c)
           \<and> rect (nat crop_size) (nat crop_size) (cropped_mask c)
           \<and> (\<forall>i<nat crop_size. \<forall>j<nat crop_size.
                  cropped_original c ! i ! j
                    = original_image ! (nat (start_y c) + i) ! (nat (start_x c) + j)
                \<and> cropped_mask c ! i ! j
                    = mask_image ! (nat (start_y c) + i) ! (nat (start_x c) + j))"
proof -
  have hw: "height original_image = H" "width original_image = W"
    using ro H by (simp_all add: rect_height rect_width)
  obtain c where c: "draw_candidate env original_image mask_image crop_size k = Inr c"
    using draw_candidate_total[of crop_size original_image env mask_image k] cs hw by auto
  have b: "0 \<le> start_x c" "start_x c \<le> int W - crop_size"
    "0 \<le> start_y c" "start_y c \<le> int H - crop_size"
    using draw_candidate_Inr[OF c, unfolded hw] by simp_all
  have e: "start_x c + crop_size \<le> int W" "start_y c + crop_size \<le> int H"
    using b by linarith+
  show ?thesis
    using c b e draw_candidate_pixels[OF ro rm H c nn] by blast
qed

theorem crop_candidate_in_bounds_witness:
  "rect 2 2 [[white, black], [gray, white]] \<and> rect 2 2 [[gray, gray], [gray, white]]
   \<and> (0::int) \<le> 1 \<and> (1::int) \<le> min (int 2) (int 2)
   \<and> draw_candidate \<lparr>rnd = \<lambda>k. 1, fl = \<lambda>x. x\<rparr> [[white, black], [gray, white]]
        [[gray, gray], [gray, white]] 1 0
       = Inr \<lparr>start_x = 1, start_y = 1, cropped_original = [[white]], cropped_mask = [[white]],
              defect_ratio = 1\<rparr>"
proof -
  have r: "rect 2 2 [[white, black], [gray, white]]" "rect 2 2 [[gray, gray], [gray, white]]"
    by (simp_all add: rect_def)
  have p: "(0::nat) < 2" "(0::int) \<le> 1" "(1::int) \<le> min (int 2) (int 2)"
    by simp_all
  show ?thesis
    using crop_candidate_in_bounds[OF r p, of "\<lparr>rnd = \<lambda>k. 1, fl = \<lambda>x. x\<rparr>" 0] r
    by (simp add: draw_candidate_def Let_def and_then_def randint_def width_def height_def
        crop_window_def py_slice_def slice_bound_def defect_percentage_def np_all_eq_def
        np_sum_def channels_equal_255)
qed

subsection \<open>Defect ratio, alignment and acceptance\<close>

lemma np_sum_count:
  "np_sum (np_all_eq v g) = sum_list (map (\<lambda>r. length (filter (channels_equal v) r)) g)"
  by (simp add: np_sum_def np_all_eq_def comp_def filter_map)

lemma np_sum_bound:
  assumes "length g \<le> n" and "\<forall>r\<in>set g. length r \<le> n"
  shows "np_sum (np_all_eq v g) \<le> n * n"
proof -
  have "sum_list (map (\<lambda>r. length (filter (channels_equal v) r)) g) \<le> sum_list (map (\<lambda>r. n) g)"
  proof (rule sum_list_mono)
    fix r assume "r \<in> set g"
    then have "length r \<le> n" using assms(2) by blast
    moreover have "length (filter (channels_equal v) r) \<le> length r"
      by (rule length_filter_le)
    ultimately show "length (filter (channels_equal v) r) \<le> n"
      by linarith
  qed
  also have "\<dots> = length g * n"
    by (simp add: sum_list_triv)
  also have "\<dots> \<le> n * n"
    using assms(1) by simp
  finally show ?thesis
    by (simp only: np_sum_count)
qed

lemma np_sum_all:
  assumes "rect n n g" and "\<forall>r\<in>set g. \<forall>p\<in>set r. channels_equal v p"
  shows "np_sum (np_all_eq v g) = n * n"
proof -
  have "map (\<lambda>r. length (filter (channels_equal v) r)) g = map (\<lambda>r. n) g"
  proof (rule map_cong[OF refl])
    fix r assume r: "r \<in> set g"
    then have "filter (channels_equal v) r = r"
      using assms(2) by (simp add: filter_id_conv)
    moreover have "length r = n"
      using r assms(1) by (simp add: rect_def list_all_iff)
    ultimately show "length (filter (channels_equal v) r) = n"
      by simp
  qed
  then have "np_sum (np_all_eq v g) = sum_list (map (\<lambda>r. n) g)"
    by (simp only: np_sum_count)
  also have "\<dots> = n * n"
    using assms(1) by (simp add: sum_list_triv rect_def)
  finally show ?thesis .
qed

lemma np_sum_none:
  assumes "\<forall>r\<in>set g. \<forall>p\<in>set r. \<not> channels_equal v p"
  shows "np_sum (np_all_eq v g) = 0"
proof -
  have "map (\<lambda>r. length (filter (channels_equal v) r)) g = map (\<lambda>r. 0) g"
  proof (rule map_cong[OF refl])
    fix r assume "r \<in> set g"
    then have "filter (channels_equal v) r = []"
      using assms by (simp add: filter_empty_conv)
    then show "length (filter (channels_equal v) r) = 0"
      by simp
  qed
  then show ?thesis
    by (simp add: np_sum_count)
qed

lemma defect_percentage_unfold:
  "defect_percentage env g cs
   = (if 0 < cs * cs then fl env (of_nat (np_sum (np_all_eq 255 g)) / of_int (cs * cs)) else 0)"
  by (simp add: defect_percentage_def Let_def)

lemma crop_window_small:
  assumes "0 \<le> sy" and "0 \<le> sx" and "0 \<le> cs"
  shows "length (crop_window sy sx cs img) \<le> nat cs"
    and "\<forall>r\<in>set (crop_window sy sx cs img). length r \<le> nat cs"
  using assms by (auto simp: crop_window_def py_slice_length_le)

lemma defect_percentage_range:
  assumes fl: "rounding (fl env)" and g: "length g \<le> nat cs" "\<forall>r\<in>set g. length r \<le> nat cs"
    and cs: "0 \<le> cs"
  shows "0 \<le> defect_percentage env g cs \<and> defect_percentage env g cs \<le> 1"
proof (cases "0 < cs * cs")
  case False
  then show ?thesis by (simp only: defect_percentage_unfold if_False) simp
next
  case True
  define T where "T = cs * cs"
  define c where "c = np_sum (np_all_eq 255 g)"
  have Tpos: "0 < T"
    using True by (simp only: T_def)
  have "c \<le> nat cs * nat cs"
    unfolding c_def by (rule np_sum_bound[OF g])
  also have "nat cs * nat cs = nat T"
    using cs by (simp add: T_def nat_mult_distrib)
  finally have "int c \<le> T"
    using Tpos by linarith
  then have le: "(of_nat c :: rat) \<le> of_int T"
    by (metis of_int_le_iff of_int_of_nat_eq)
  have pos: "(0::rat) < of_int T"
    using True by (simp only: T_def of_int_0_less_iff)
  have q: "0 \<le> (of_nat c :: rat) / of_int T" "(of_nat c :: rat) / of_int T \<le> 1"
    using le pos by (simp_all add: divide_le_eq_1)
  have mono: "\<And>x y. x \<le> y \<Longrightarrow> fl env x \<le> fl env y" and z: "fl env 0 = 0" and o: "fl env 1 = 1"
    using fl by (simp_all add: rounding_def)
  have "fl env 0 \<le> fl env (of_nat c / of_int T)" "fl env (of_nat c / of_int T) \<le> fl env 1"
    using mono q by blast+
  then have "0 \<le> fl env (of_nat c / of_int T) \<and> fl env (of_nat c / of_int T) \<le> 1"
    by (simp only: z o)
  then show ?thesis
    using True by (simp only: defect_percentage_unfold if_True T_def c_def)
qed

lemma defect_percentage_none:
  assumes "fl env 0 = 0" and "\<forall>r\<in>set g. \<forall>p\<in>set r. p \<noteq> white"
  shows "defect_percentage env g cs = 0"
proof -
  have "np_sum (np_all_eq 255 g) = 0"
    using assms(2) by (intro np_sum_none) (simp add: channels_equal_255)
  then show ?thesis
    using assms(1) by (simp add: defect_percentage_unfold)
qed

lemma defect_percentage_all:
  assumes "fl env 1 = 1" and "rect (nat cs) (nat cs) g" and "0 < cs"
    and "\<forall>r\<in>set g. \<forall>p\<in>set r. p = white"
  shows "defect_percentage env g cs = 1"
proof -
  define T where "T = cs * cs"
  have pos: "0 < T"
    using assms(3) by (simp add: T_def)
  have "np_sum (np_all_eq 255 g) = nat cs * nat cs"
    using assms(2,4) by (intro np_sum_all) (simp_all add: channels_equal_255)
  also have "\<dots> = nat T"
    using assms(3) by (simp add: T_def nat_mult_distrib)
  finally have "(of_nat (np_sum (np_all_eq 255 g)) :: rat) = of_int T"
    using pos by (metis int_nat_eq of_int_of_nat_eq less_imp_le)
  moreover have "(of_int T :: rat) \<noteq> 0"
    using pos by simp
  ultimately have "(of_nat (np_sum (np_all_eq 255 g)) :: rat) / of_int T = 1"
    by simp
  then show ?thesis
    using assms(1) pos by (simp only: defect_percentage_unfold T_def[symmetric] if_True)
qed

text \<open>
  C3 speaks of every candidate. With crop size 0 the crop is empty, so each of its
  pixels is white, and the guard on \<open>total_pixels\<close> makes the ratio 0, not 1. With a
  negative crop size the slices wrap around: on a 3 by 3 white mask and crop size -1 the
  crop has four white pixels and \<open>total_pixels\<close> is 1, so the ratio is 4.
\<close>

theorem defect_ratio_degenerate:
  "draw_candidate \<lparr>rnd = \<lambda>k. 0, fl = \<lambda>x. x\<rparr> [[white]] [[white]] 0 0
     = Inr \<lparr>start_x = 0, start_y = 0, cropped_original = [], cropped_mask = [],
            defect_ratio = 0\<rparr>
   \<and> draw_candidate \<lparr>rnd = \<lambda>k. 0, fl = \<lambda>x. x\<rparr>
       [[white, white, white], [white, white, white], [white, white, white]]
       [[white, white, white], [white, white, white], [white, white, white]] (- 1) 0
     = Inr \<lparr>start_x = 0, start_y = 0,
            cropped_original = [[white, white], [white, white]],
            cropped_mask = [[white, white], [white, white]],
            defect_ratio = 4\<rparr>"
  by (simp add: draw_candidate_def Let_def and_then_def randint_def width_def height_def
      crop_window_def py_slice_def slice_bound_def defect_percentage_def np_all_eq_def
      np_sum_def channels_equal_255)

text \<open>
  C3, amended. For a candidate with a crop size that is not negative the defect ratio
  lies in \<open>[0, 1]\<close>; it is exactly 1 when the crop size is at least 1 and every pixel of
  the mask crop is white, and exactly 0 when no pixel of the mask crop is white.
\<close>

theorem defect_ratio_amended:
  assumes fl: "rounding (fl env)"
    and ro: "rect H W original_image" and rm: "rect H W mask_image" and H: "0 < H"
    and c: "draw_candidate env original_image mask_image crop_size k = Inr c"
    and cs: "0 \<le> crop_size"
  shows "0 \<le> defect_ratio c \<and> defect_ratio c \<le> 1
       \<and> (0 < crop_size \<and> (\<forall>r\<in>set (cropped_mask c). \<forall>p\<in>set r. p = white)
            \<longrightarrow> defect_ratio c = 1)
       \<and> ((\<forall>r\<in>set (cropped_mask c). \<forall>p\<in>set r. p \<noteq> white) \<longrightarrow> defect_ratio c = 0)"
proof -
  have hw: "height original_image = H" "width original_image = W"
    using ro H by (simp_all add: rect_height rect_width)
  note d = draw_candidate_Inr[OF c, unfolded hw]
  have b: "0 \<le> start_x c" "start_x c \<le> int W - crop_size"
    "0 \<le> start_y c" "start_y c \<le> int H - crop_size"
    using d by simp_all
  have m: "cropped_mask c = crop_window (start_y c) (start_x c) crop_size mask_image"
    and r: "defect_ratio c = defect_percentage env (cropped_mask c) crop_size"
    using d by simp_all
  have z: "fl env 0 = 0" and o: "fl env 1 = 1"
    using fl by (simp_all add: rounding_def)
  have range: "0 \<le> defect_ratio c \<and> defect_ratio c \<le> 1"
    unfolding r m
    by (rule defect_percentage_range[OF fl crop_window_small[OF b(3) b(1) cs] cs])
  have y: "start_y c + crop_size \<le> int H" and x: "start_x c + crop_size \<le> int W"
    using b by linarith+
  have sq: "rect (nat crop_size) (nat crop_size) (cropped_mask c)"
    unfolding m by (rule crop_window_inside(1)[OF rm b(3) b(1) cs y x])
  have one: "defect_ratio c = 1"
    if "0 < crop_size" "\<forall>r\<in>set (cropped_mask c). \<forall>p\<in>set r. p = white"
    unfolding r by (rule defect_percentage_all[OF o sq that])
  have zero: "defect_ratio c = 0" if "\<forall>r\<in>set (cropped_mask c). \<forall>p\<in>set r. p \<noteq> white"
    unfolding r by (rule defect_percentage_none[OF z that])
  show ?thesis
    using range one zero by blast
qed

theorem defect_ratio_amended_witness:
  "rounding (\<lambda>x. x)
   \<and> draw_candidate \<lparr>rnd = \<lambda>k. 1, fl = \<lambda>x. x\<rparr> [[white, black], [gray, white]]
        [[gray, gray], [gray, white]] 1 0
       = Inr \<lparr>start_x = 1, start_y = 1, cropped_original = [[white]], cropped_mask = [[white]],
              defect_ratio = 1\<rparr>"
proof -
  have f: "rounding (fl \<lparr>rnd = \<lambda>k. 1, fl = \<lambda>x. x\<rparr>)"
    by (simp add: rounding_def)
  have r: "rect 2 2 [[white, black], [gray, white]]" "rect 2 2 [[gray, gray], [gray, white]]"
    by (simp_all add: rect_def)
  have c: "draw_candidate \<lparr>rnd = \<lambda>k. 1, fl = \<lambda>x. x\<rparr> [[white, black], [gray, white]]
        [[gray, gray], [gray, white]] 1 0
       = Inr \<lparr>start_x = 1, start_y = 1, cropped_original = [[white]], cropped_mask = [[white]],
              defect_ratio = 1\<rparr>"
    by (simp add: draw_candidate_def Let_def and_then_def randint_def width_def height_def
        crop_window_def py_slice_def slice_bound_def defect_percentage_def np_all_eq_def
        np_sum_def channels_equal_255)
  show ?thesis
    using defect_ratio_amended[OF f r _ c] f c by simp
qed

lemma expand_once_raises_tall:
  assumes "rect h w original_image" and "0 < h" and "512 < w" and "w < h"
  shows "expand_once env original_image mask_image k = Inl ValueError"
  using assms
  by (simp add: expand_once_def Let_def rect_height rect_width and_then_def randint_def)

lemma framed_alike:
  assumes ro: "rect h w original_image" and rm: "rect h w mask_image" and h: "0 < h"
  shows "rect (t + h + b) (l + w + r) (copyMakeBorder original_image t b l r gray)
       \<and> rect (t + h + b) (l + w + r) (copyMakeBorder mask_image t b l r gray)
       \<and> (\<forall>i<h. \<forall>j<w.
             copyMakeBorder original_image t b l r gray ! (t + i) ! (l + j) = original_image ! i ! j
           \<and> copyMakeBorder mask_image t b l r gray ! (t + i) ! (l + j) = mask_image ! i ! j)"
  by (simp add: rect_copyMakeBorder[OF ro h] rect_copyMakeBorder[OF rm h]
      copyMakeBorder_nth[OF ro] copyMakeBorder_nth[OF rm])

lemma expand_once_framed:
  assumes ro: "rect h w original_image" and rm: "rect h w mask_image" and h: "0 < h"
    and e: "expand_once env original_image mask_image k = Inr (eo, em, k')"
  shows "\<exists>t b l r. eo = copyMakeBorder original_image t b l r gray
                 \<and> em = copyMakeBorder mask_image t b l r gray"
proof -
  consider (wide) "h < w" | (tall) "w < h" | (square) "h = w"
    by linarith
  then show ?thesis
  proof cases
    case wide
    have "h \<le> 512"
      using expand_once_raises[OF ro _ wide, of env mask_image k] e by (cases "512 < h") auto
    from expand_once_wide[OF ro rm h wide this, of env k] e show ?thesis
      by auto
  next
    case tall
    have "w \<le> 512"
      using expand_once_raises_tall[OF ro h _ tall, of env mask_image k] e by (cases "512 < w") auto
    from expand_once_tall[OF ro rm h tall this, of env k] e show ?thesis
      by auto
  next
    case square
    with expand_once_square[of h original_image env mask_image k] ro h e
    have "eo = original_image" "em = mask_image"
      by simp_all
    then have "eo = copyMakeBorder original_image 0 0 0 0 gray
             \<and> em = copyMakeBorder mask_image 0 0 0 0 gray"
      by (simp add: copyMakeBorder_0)
    then show ?thesis by blast
  qed
qed

lemma expand_pair_framed:
  assumes ro: "rect h w original_image" and rm: "rect h w mask_image" and h: "0 < h" and w: "0 < w"
    and e: "expand_pair env L original_image mask_image k = Inr (eo, em, k')"
  shows "\<exists>t b l r. eo = copyMakeBorder original_image t b l r gray
                 \<and> em = copyMakeBorder mask_image t b l r gray"
  using expand_pair_eq[OF ro rm h w, of L env k] e by auto

text \<open>
  C5. Whenever an expansion of \<open>expand_image\<close> or of \<open>process_image_pair\<close> returns,
  the original and the mask have been framed with the same four margins, so both
  canvases have the same size and pixel \<open>(i, j)\<close> of each source sits at the same place
  \<open>(t + i, l + j)\<close> of its canvas. A candidate's two crops are the same window, at the
  same corner and of the same size, of the original and of the mask.
\<close>

theorem mask_stays_aligned:
  assumes ro: "rect h w original_image" and rm: "rect h w mask_image" and h: "0 < h" and w: "0 < w"
  shows "(\<forall>eo em k'.
            expand_once env original_image mask_image k = Inr (eo, em, k')
            \<or> expand_pair env L original_image mask_image k = Inr (eo, em, k') \<longrightarrow>
            (\<exists>t b l r.
                eo = copyMakeBorder original_image t b l r gray
              \<and> em = copyMakeBorder mask_image t b l r gray
              \<and> rect (t + h + b) (l + w + r) eo \<and> rect (t + h + b) (l + w + r) em
              \<and> (\<forall>i<h. \<forall>j<w. eo ! (t + i) ! (l + j) = original_image ! i ! j
                            \<and> em ! (t + i) ! (l + j) = mask_image ! i ! j)))
       \<and> (\<forall>c. draw_candidate env original_image mask_image crop_size k = Inr c \<longrightarrow>
              cropped_original c
                = crop_window (start_y c) (start_x c) crop_size original_image
            \<and> cropped_mask c
                = crop_window (start_y c) (start_x c) crop_size mask_image
            \<and> (0 \<le> crop_size \<longrightarrow>
                  (\<forall>i<nat crop_size. \<forall>j<nat crop_size.
                      cropped_original c ! i ! j
                        = original_image ! (nat (start_y c) + i) ! (nat (start_x c) + j)
                    \<and> cropped_mask c ! i ! j
                        = mask_image ! (nat (start_y c) + i) ! (nat (start_x c) + j))))"
proof -
  have expansion: "\<exists>t b l r.
                eo = copyMakeBorder original_image t b l r gray
              \<and> em = copyMakeBorder mask_image t b l r gray
              \<and> rect (t + h + b) (l + w + r) eo \<and> rect (t + h + b) (l + w + r) em
              \<and> (\<forall>i<h. \<forall>j<w. eo ! (t + i) ! (l + j) = original_image ! i ! j
                            \<and> em ! (t + i) ! (l + j) = mask_image ! i ! j)"
    if e: "expand_once env original_image mask_image k = Inr (eo, em, k')
           \<or> expand_pair env L original_image mask_image k = Inr (eo, em, k')" for eo em k'
  proof -
    from e obtain t b l r where
      f: "eo = copyMakeBorder original_image t b l r gray"
         "em = copyMakeBorder mask_image t b l r gray"
      using expand_once_framed[OF ro rm h] expand_pair_framed[OF ro rm h w] by blast
    show ?thesis
      using framed_alike[OF ro rm h, of t b l r] unfolding f by blast
  qed
  have crop: "cropped_original c
                = crop_window (start_y c) (start_x c) crop_size original_image
            \<and> cropped_mask c
                = crop_window (start_y c) (start_x c) crop_size mask_image
            \<and> (0 \<le> crop_size \<longrightarrow>
                  (\<forall>i<nat crop_size. \<forall>j<nat crop_size.
                      cropped_original c ! i ! j
                        = original_image ! (nat (start_y c) + i) ! (nat (start_x c) + j)
                    \<and> cropped_mask c ! i ! j
                        = mask_image ! (nat (start_y c) + i) ! (nat (start_x c) + j)))"
    if c: "draw_candidate env original_image mask_image crop_size k = Inr c" for c
    using draw_candidate_Inr[OF c] draw_candidate_pixels[OF ro rm h c] by blast
  show ?thesis
    using expansion crop by blast
qed

theorem mask_stays_aligned_witness:
  "rect 1 2 [[white, black]] \<and> rect 1 2 [[gray, white]]
   \<and> expand_pair \<lparr>rnd = \<lambda>k. 1, fl = \<lambda>x. x\<rparr> 1 [[white, black]] [[gray, white]] 0
       = Inr ([[white, black]], [[gray, white]], 0)
   \<and> draw_candidate \<lparr>rnd = \<lambda>k. 1, fl = \<lambda>x. x\<rparr> [[white, black]] [[gray, white]] 1 0
       = Inr \<lparr>start_x = 1, start_y = 0, cropped_original = [[black]], cropped_mask = [[white]],
              defect_ratio = 1\<rparr>"
proof -
  have r: "rect 1 2 [[white, black]]" "rect 1 2 [[gray, white]]"
    by (simp_all add: rect_def)
  have p: "(0::nat) < 1" "(0::nat) < 2"
    by simp_all
  have e: "expand_pair \<lparr>rnd = \<lambda>k. 1, fl = \<lambda>x. x\<rparr> 1 [[white, black]] [[gray, white]] 0
       = Inr ([[white, black]], [[gray, white]], 0)"
    by (simp add: expand_pair_def Let_def height_def width_def)
  have c: "draw_candidate \<lparr>rnd = \<lambda>k. 1, fl = \<lambda>x. x\<rparr> [[white, black]] [[gray, white]] 1 0
       = Inr \<lparr>start_x = 1, start_y = 0, cropped_original = [[black]], cropped_mask = [[white]],
              defect_ratio = 1\<rparr>"
    by (simp add: draw_candidate_def Let_def and_then_def randint_def width_def height_def
        crop_window_def py_slice_def slice_bound_def defect_percentage_def np_all_eq_def
        np_sum_def channels_equal_255)
  show ?thesis
    using mask_stays_aligned[OF r p, of "\<lparr>rnd = \<lambda>k. 1, fl = \<lambda>x. x\<rparr>" 0 1 1] r e c
    by simp
qed

lemma imwrite_result:
  "imwrite name img w = (res, w') \<Longrightarrow>
   processed_image_count w' = processed_image_count w \<and> draws w' = draws w
   \<and> stdout w' = stdout w
   \<and> (res \<noteq> None \<longrightarrow> w' = w)"
  by (auto simp: imwrite_def split: if_splits)

lemma crop_attempt_rejected:
  assumes "draw_candidate env original_image mask_image crop_size (draws w) = Inr c"
    and "\<not> accept (defect_ratio c) defect_threshold"
  shows "crop_attempt env original_path output_original_dir output_mask_dir original_image
           mask_image crop_size defect_threshold i valid_crop_counter w
         = (None, valid_crop_counter,
            say (AttemptRatio (i + 1) (defect_ratio c)) (w\<lparr>draws := draws w + 2\<rparr>))"
  using assms by (simp add: crop_attempt_def Let_def)

lemma pair_attempt_rejected:
  assumes "draw_candidate env expanded_original expanded_mask crop_size (draws w) = Inr c"
    and "\<not> accept (defect_ratio c) defect_threshold"
  shows "pair_attempt env ext output_original_dir output_mask_dir expanded_original
           expanded_mask crop_size defect_threshold w
         = (None, w\<lparr>draws := draws w + 2\<rparr>)"
  using assms by (simp add: pair_attempt_def Let_def)

lemma gray_crop_ratio:
  assumes "draw_candidate env original_image mask_image crop_size k = Inr c"
    and "fl env 0 = 0" and "\<forall>r\<in>set (cropped_mask c). \<forall>p\<in>set r. p = gray"
  shows "defect_ratio c = 0"
proof -
  have "\<forall>r\<in>set (cropped_mask c). \<forall>p\<in>set r. p \<noteq> white"
    using assms(3) colours by metis
  from defect_percentage_none[OF assms(2) this] draw_candidate_Inr[OF assms(1)]
  show ?thesis by simp
qed

text \<open>
  C8. A candidate whose defect ratio is below the threshold leaves the files, the list
  of written paths, the counter of valid crops of \<open>crop_image\<close> and the global counter of
  \<open>process_image_pair\<close> as they were; the attempt only consumes its two draws and, in
  \<open>crop_image\<close>, prints the ratio. A mask crop that is all gray has ratio 0 and is
  rejected at threshold 0.0002, so it writes nothing.
\<close>

theorem rejected_candidate_writes_nothing:
  assumes c: "draw_candidate env original_image mask_image crop_size (draws w) = Inr c"
  shows "(defect_ratio c < defect_threshold \<longrightarrow>
            (\<exists>w'. crop_attempt env original_path output_original_dir output_mask_dir
                     original_image mask_image crop_size defect_threshold i valid_crop_counter w
                   = (None, valid_crop_counter, w')
                 \<and> files w' = files w \<and> written w' = written w
                 \<and> processed_image_count w' = processed_image_count w)
          \<and> (\<exists>w'. pair_attempt env ext output_original_dir output_mask_dir
                     original_image mask_image crop_size defect_threshold w
                   = (None, w')
                 \<and> files w' = files w \<and> written w' = written w
                 \<and> processed_image_count w' = processed_image_count w))
       \<and> (fl env 0 = 0 \<and> (\<forall>r\<in>set (cropped_mask c). \<forall>p\<in>set r. p = gray) \<longrightarrow>
            defect_ratio c = 0
          \<and> (\<exists>w'. crop_attempt env original_path output_original_dir output_mask_dir
                     original_image mask_image crop_size (2 / 10000) i valid_crop_counter w
                   = (None, valid_crop_counter, w')
                 \<and> files w' = files w \<and> written w' = written w)
          \<and> (\<exists>w'. pair_attempt env ext output_original_dir output_mask_dir
                     original_image mask_image crop_size (2 / 10000) w
                   = (None, w')
                 \<and> files w' = files w \<and> written w' = written w
                 \<and> processed_image_count w' = processed_image_count w))"
proof -
  have rej: "(\<exists>w'. crop_attempt env original_path output_original_dir output_mask_dir
                     original_image mask_image crop_size t i valid_crop_counter w
                   = (None, valid_crop_counter, w')
                 \<and> files w' = files w \<and> written w' = written w
                 \<and> processed_image_count w' = processed_image_count w)
          \<and> (\<exists>w'. pair_attempt env ext output_original_dir output_mask_dir
                     original_image mask_image crop_size t w
                   = (None, w')
                 \<and> files w' = files w \<and> written w' = written w
                 \<and> processed_image_count w' = processed_image_count w)"
    if "defect_ratio c < t" for t
  proof -
    have n: "\<not> accept (defect_ratio c) t"
      using that by (simp add: accept_def)
    show ?thesis
      unfolding crop_attempt_rejected[OF c n] pair_attempt_rejected[OF c n]
      by (simp add: say_def)
  qed
  have gray: "defect_ratio c = 0"
    if "fl env 0 = 0" "\<forall>r\<in>set (cropped_mask c). \<forall>p\<in>set r. p = gray"
    by (rule gray_crop_ratio[OF c that])
  have "defect_ratio c < 2 / 10000"
    if "fl env 0 = 0" "\<forall>r\<in>set (cropped_mask c). \<forall>p\<in>set r. p = gray"
    using gray[OF that] by simp
  with rej gray show ?thesis
    by blast
qed

theorem rejected_candidate_writes_nothing_witness:
  "draw_candidate \<lparr>rnd = \<lambda>k. 0, fl = \<lambda>x. x\<rparr> [[white, black]] [[gray, gray]] 1
     (draws \<lparr>files = Map.empty, written = [], draws = 0, stdout = [], processed_image_count = 7\<rparr>)
     = Inr \<lparr>start_x = 0, start_y = 0, cropped_original = [[white]], cropped_mask = [[gray]],
            defect_ratio = 0\<rparr>
   \<and> pair_attempt \<lparr>rnd = \<lambda>k. 0, fl = \<lambda>x. x\<rparr> ''.png'' ''out'' ''out_mask''
       [[white, black]] [[gray, gray]] 1 (2 / 10000)
       \<lparr>files = Map.empty, written = [], draws = 0, stdout = [], processed_image_count = 7\<rparr>
     = (None, \<lparr>files = Map.empty, written = [], draws = 2, stdout = [],
               processed_image_count = 7\<rparr>)
   \<and> crop_attempt \<lparr>rnd = \<lambda>k. 0, fl = \<lambda>x. x\<rparr> ''in/12.png'' ''out'' ''out_mask''
       [[white, black]] [[gray, gray]] 1 (2 / 10000) 0 0
       \<lparr>files = Map.empty, written = [], draws = 0, stdout = [], processed_image_count = 7\<rparr>
     = (None, 0, \<lparr>files = Map.empty, written = [], draws = 2, stdout = [AttemptRatio 1 0],
                  processed_image_count = 7\<rparr>)"
proof -
  let ?w = "\<lparr>files = Map.empty, written = [], draws = 0, stdout = [],
             processed_image_count = 7\<rparr>"
  have c: "draw_candidate \<lparr>rnd = \<lambda>k. 0, fl = \<lambda>x. x\<rparr> [[white, black]] [[gray, gray]] 1
     (draws ?w)
     = Inr \<lparr>start_x = 0, start_y = 0, cropped_original = [[white]], cropped_mask = [[gray]],
            defect_ratio = 0\<rparr>"
    by (simp add: draw_candidate_def Let_def and_then_def randint_def width_def height_def
        crop_window_def py_slice_def slice_bound_def defect_percentage_def np_all_eq_def
        np_sum_def channels_equal_255 colours)
  show ?thesis
    using rejected_candidate_writes_nothing[OF c, of "2 / 10000" "''in/12.png''" "''out''"
        "''out_mask''" 0 0 "''.png''"] c
    by (simp add: crop_attempt_def pair_attempt_def Let_def accept_def say_def)
qed

text \<open>
  The same holds for a whole run of the loop of \<open>crop_image\<close>: with a threshold above 1
  every attempt is rejected, the loop ends normally and no file is written.
\<close>

lemma crop_loop_all_rejected:
  assumes fl: "rounding (fl env)"
    and ro: "rect H W original_image" and rm: "rect H W mask_image" and H: "0 < H"
    and cs: "0 \<le> crop_size" "crop_size \<le> int H" "crop_size \<le> int W"
    and t: "1 < defect_threshold"
  shows "\<exists>w'. crop_loop env original_path output_original_dir output_mask_dir original_image
                mask_image crop_size defect_threshold n i valid_crop_counter w = (None, w')
              \<and> files w' = files w \<and> written w' = written w
              \<and> draws w' = draws w + 2 * n"
proof (induction n arbitrary: i w)
  case 0
  show ?case by simp
next
  case (Suc n)
  have hw: "height original_image = H" "width original_image = W"
    using ro H by (simp_all add: rect_height rect_width)
  obtain c where c: "draw_candidate env original_image mask_image crop_size (draws w) = Inr c"
    using draw_candidate_total[of crop_size original_image env mask_image "draws w"] cs hw by auto
  have "defect_ratio c \<le> 1"
  proof -
    note d = draw_candidate_Inr[OF c]
    have "0 \<le> start_y c" "0 \<le> start_x c"
      and m: "cropped_mask c = crop_window (start_y c) (start_x c) crop_size mask_image"
      and r: "defect_ratio c = defect_percentage env (cropped_mask c) crop_size"
      using d by simp_all
    from defect_percentage_range[OF fl crop_window_small[OF this(1,2) cs(1)] cs(1)]
    show ?thesis unfolding r m by simp
  qed
  then have n: "\<not> accept (defect_ratio c) defect_threshold"
    using t by (simp add: accept_def)
  let ?w1 = "say (AttemptRatio (i + 1) (defect_ratio c)) (w\<lparr>draws := draws w + 2\<rparr>)"
  have step: "crop_loop env original_path output_original_dir output_mask_dir original_image
                mask_image crop_size defect_threshold (Suc n) i valid_crop_counter w
              = crop_loop env original_path output_original_dir output_mask_dir original_image
                mask_image crop_size defect_threshold n (Suc i) valid_crop_counter ?w1"
    using cs by (simp add: hw Let_def crop_attempt_rejected[OF c n])
  from Suc.IH[of "Suc i" ?w1] show ?case
    unfolding step by (auto simp: say_def)
qed

lemma pair_attempt_count:
  assumes c: "draw_candidate env expanded_original expanded_mask crop_size (draws w) = Inr c"
  shows "processed_image_count
           (snd (pair_attempt env ext output_original_dir output_mask_dir expanded_original
                   expanded_mask crop_size t w))
         = processed_image_count w + (if accept (defect_ratio c) t then 1 else 0)"
proof (cases "accept (defect_ratio c) t")
  case False
  then show ?thesis
    by (simp add: pair_attempt_rejected[OF c])
next
  case True
  then show ?thesis
    using c
    by (auto simp: pair_attempt_def Let_def say_def split: prod.splits option.splits
        dest!: imwrite_result)
qed

lemma crop_attempt_count:
  assumes c: "draw_candidate env original_image mask_image crop_size (draws w) = Inr c"
    and n: "fst (snd (crop_attempt env original_path output_original_dir output_mask_dir
                        original_image mask_image crop_size t i valid_crop_counter w))
            \<noteq> valid_crop_counter"
  shows "accept (defect_ratio c) t"
proof (rule ccontr)
  assume "\<not> accept (defect_ratio c) t"
  from crop_attempt_rejected[OF c this] n show False
    by simp
qed

lemma imwrite_ok:
  "height img \<noteq> 0 \<Longrightarrow> width img \<noteq> 0 \<Longrightarrow>
   imwrite name img w
   = (None, w\<lparr>files := (files w)(name \<mapsto> Image img), written := written w @ [name]\<rparr>)"
  by (simp add: imwrite_def)

lemma rect_nonempty:
  "rect n n g \<Longrightarrow> 0 < n \<Longrightarrow> height g \<noteq> 0 \<and> width g \<noteq> 0"
  by (simp add: rect_height rect_width)

lemma candidate_nonempty:
  assumes ro: "rect H W original_image" and rm: "rect H W mask_image" and H: "0 < H"
    and c: "draw_candidate env original_image mask_image crop_size k = Inr c"
    and cs: "0 < crop_size"
  shows "height (cropped_original c) \<noteq> 0" "width (cropped_original c) \<noteq> 0"
    "height (cropped_mask c) \<noteq> 0" "width (cropped_mask c) \<noteq> 0"
proof -
  have nn: "0 \<le> crop_size" and p: "0 < nat crop_size"
    using cs by simp_all
  from draw_candidate_pixels[OF ro rm H c nn]
  have "rect (nat crop_size) (nat crop_size) (cropped_original c)"
    "rect (nat crop_size) (nat crop_size) (cropped_mask c)"
    by simp_all
  from rect_nonempty[OF this(1) p] rect_nonempty[OF this(2) p]
  show "height (cropped_original c) \<noteq> 0" "width (cropped_original c) \<noteq> 0"
    "height (cropped_mask c) \<noteq> 0" "width (cropped_mask c) \<noteq> 0"
    by simp_all
qed

lemma crop_attempt_accepted:
  assumes c: "draw_candidate env original_image mask_image crop_size (draws w) = Inr c"
    and a: "accept (defect_ratio c) defect_threshold"
    and ne: "height (cropped_original c) \<noteq> 0" "width (cropped_original c) \<noteq> 0"
      "height (cropped_mask c) \<noteq> 0" "width (cropped_mask c) \<noteq> 0"
  shows "\<exists>output_original_name output_mask_name w'.
           crop_attempt env original_path output_original_dir output_mask_dir original_image
             mask_image crop_size defect_threshold i valid_crop_counter w
           = (None, valid_crop_counter + 1, w')
         \<and> written w' = written w @ [output_original_name, output_mask_name]
         \<and> files w' = (files w)(output_original_name \<mapsto> Image (cropped_original c),
                                  output_mask_name \<mapsto> Image (cropped_mask c))
         \<and> draws w' = draws w + 2
         \<and> processed_image_count w' = processed_image_count w"
  using c a
  by (simp add: crop_attempt_def Let_def split_def imwrite_ok ne say_def)

lemma pair_attempt_accepted:
  assumes c: "draw_candidate env expanded_original expanded_mask crop_size (draws w) = Inr c"
    and a: "accept (defect_ratio c) defect_threshold"
    and ne: "height (cropped_original c) \<noteq> 0" "width (cropped_original c) \<noteq> 0"
      "height (cropped_mask c) \<noteq> 0" "width (cropped_mask c) \<noteq> 0"
  shows "\<exists>output_original_name output_mask_name w'.
           pair_attempt env ext output_original_dir output_mask_dir expanded_original
             expanded_mask crop_size defect_threshold w
           = (None, w')
         \<and> written w' = written w @ [output_original_name, output_mask_name]
         \<and> files w' = (files w)(output_original_name \<mapsto> Image (cropped_original c),
                                  output_mask_name \<mapsto> Image (cropped_mask c))
         \<and> draws w' = draws w + 2
         \<and> processed_image_count w' = processed_image_count w + 1"
  using c a
  by (simp add: pair_attempt_def Let_def imwrite_ok ne say_def)

lemma crop_attempt_not_rejected:
  assumes c: "draw_candidate env original_image mask_image crop_size (draws w) = Inr c"
    and a: "accept (defect_ratio c) defect_threshold"
  shows "\<not> (fst (crop_attempt env original_path output_original_dir output_mask_dir
                   original_image mask_image crop_size defect_threshold i valid_crop_counter w)
              = None
          \<and> fst (snd (crop_attempt env original_path output_original_dir output_mask_dir
                   original_image mask_image crop_size defect_threshold i valid_crop_counter w))
              = valid_crop_counter)"
  using c a
  by (auto simp: crop_attempt_def Let_def split_def split: prod.splits option.splits)

lemma pair_crop_loop_counts:
  assumes ro: "rect H W expanded_original" and rm: "rect H W expanded_mask" and H: "0 < H"
    and cs: "0 < crop_size" "crop_size \<le> int H" "crop_size \<le> int W"
  shows "\<exists>w'. pair_crop_loop env ext output_original_dir output_mask_dir expanded_original
                expanded_mask crop_size t n w = (None, w')
              \<and> draws w' = draws w + 2 * n
              \<and> processed_image_count w'
                  = processed_image_count w
                    + length (filter (\<lambda>c. accept (defect_ratio c) t)
                        (crop_candidates env expanded_original expanded_mask crop_size (draws w) n))
              \<and> length (written w')
                  = length (written w)
                    + 2 * length (filter (\<lambda>c. accept (defect_ratio c) t)
                        (crop_candidates env expanded_original expanded_mask crop_size (draws w) n))"
proof (induction n arbitrary: w)
  case 0
  show ?case by simp
next
  case (Suc n)
  have hw: "height expanded_original = H" "width expanded_original = W"
    using ro H by (simp_all add: rect_height rect_width)
  obtain c where c: "draw_candidate env expanded_original expanded_mask crop_size (draws w) = Inr c"
    using draw_candidate_total[of crop_size expanded_original env expanded_mask "draws w"] cs hw
    by auto
  show ?case
  proof (cases "accept (defect_ratio c) t")
    case True
    from pair_attempt_accepted[OF c True candidate_nonempty[OF ro rm H c cs(1)]]
    obtain w1 where a: "pair_attempt env ext output_original_dir output_mask_dir expanded_original
             expanded_mask crop_size t w = (None, w1)"
      and w1: "length (written w1) = length (written w) + 2" "draws w1 = draws w + 2"
        "processed_image_count w1 = processed_image_count w + 1"
      by fastforce
    from Suc.IH[of w1] show ?thesis
      by (auto simp: a w1 c True)
  next
    case False
    let ?w1 = "w\<lparr>draws := draws w + 2\<rparr>"
    have a: "pair_attempt env ext output_original_dir output_mask_dir expanded_original
             expanded_mask crop_size t w = (None, ?w1)"
      by (rule pair_attempt_rejected[OF c False])
    from Suc.IH[of ?w1] show ?thesis
      by (auto simp: a c False)
  qed
qed

lemma crop_loop_counts:
  assumes ro: "rect H W original_image" and rm: "rect H W mask_image" and H: "0 < H"
    and cs: "0 < crop_size" "crop_size \<le> int H" "crop_size \<le> int W"
  shows "\<exists>w'. crop_loop env original_path output_original_dir output_mask_dir original_image
                mask_image crop_size t n i valid_crop_counter w = (None, w')
              \<and> draws w' = draws w + 2 * n
              \<and> length (written w')
                  = length (written w)
                    + 2 * length (filter (\<lambda>c. accept (defect_ratio c) t)
                        (crop_candidates env original_image mask_image crop_size (draws w) n))"
proof (induction n arbitrary: i valid_crop_counter w)
  case 0
  show ?case by simp
next
  case (Suc n)
  have hw: "height original_image = H" "width original_image = W"
    using ro H by (simp_all add: rect_height rect_width)
  have guard: "\<not> (int W - crop_size < 0 \<or> int H - crop_size < 0)"
    using cs by linarith
  obtain c where c: "draw_candidate env original_image mask_image crop_size (draws w) = Inr c"
    using draw_candidate_total[of crop_size original_image env mask_image "draws w"] cs hw
    by auto
  show ?case
  proof (cases "accept (defect_ratio c) t")
    case True
    from crop_attempt_accepted[OF c True candidate_nonempty[OF ro rm H c cs(1)]]
    obtain w1 where a: "crop_attempt env original_path output_original_dir output_mask_dir
             original_image mask_image crop_size t i valid_crop_counter w
           = (None, valid_crop_counter + 1, w1)"
      and w1: "length (written w1) = length (written w) + 2" "draws w1 = draws w + 2"
      by fastforce
    from Suc.IH[of "Suc i" "valid_crop_counter + 1" w1] show ?thesis
      using guard by (auto simp: hw Let_def a w1 c True)
  next
    case False
    let ?w1 = "say (AttemptRatio (i + 1) (defect_ratio c)) (w\<lparr>draws := draws w + 2\<rparr>)"
    have a: "crop_attempt env original_path output_original_dir output_mask_dir
             original_image mask_image crop_size t i valid_crop_counter w
           = (None, valid_crop_counter, ?w1)"
      by (rule crop_attempt_rejected[OF c False])
    from Suc.IH[of "Suc i" valid_crop_counter ?w1] show ?thesis
      using guard by (auto simp: hw Let_def a c False say_def)
  qed
qed

lemma accepted_antitone:
  "t1 \<le> t2 \<Longrightarrow>
   set (filter (\<lambda>c. accept (defect_ratio c) t2) candidates)
     \<subseteq> set (filter (\<lambda>c. accept (defect_ratio c) t1) candidates)"
  by (auto simp: accept_def)

text \<open>
  C4. A candidate is accepted exactly when its defect ratio is at least the threshold.
  In \<open>process_image_pair\<close> the global counter advances by one exactly for an accepted
  candidate; in \<open>crop_image\<close> an attempt ends normally with its counter unmoved exactly
  for a rejected one; and an accepted candidate with a crop size of at least 1 is
  counted and written, original crop and mask crop, by both. A loop of \<open>n\<close> attempts
  on an image that holds the crop saves as many candidates as the sequence it draws has
  accepted ones. Acceptance is monotone in the threshold: a candidate accepted at
  \<open>t2\<close> is accepted at every \<open>t1 \<le> t2\<close>, so for a fixed list of candidates, and for the
  sequence a loop draws, the ones accepted at \<open>t2\<close> are among the ones accepted at \<open>t1\<close>.
\<close>

theorem accept_monotone:
  "(accept ratio t \<longleftrightarrow> ratio \<ge> t)
   \<and> (t1 \<le> t2 \<longrightarrow> accept ratio t2 \<longrightarrow> accept ratio t1)
   \<and> (t1 \<le> t2 \<longrightarrow>
        set (filter (\<lambda>c. accept (defect_ratio c) t2) candidates)
          \<subseteq> set (filter (\<lambda>c. accept (defect_ratio c) t1) candidates))
   \<and> (draw_candidate env expanded_original expanded_mask crop_size (draws w) = Inr c \<longrightarrow>
        processed_image_count
          (snd (pair_attempt env ext output_original_dir output_mask_dir expanded_original
                  expanded_mask crop_size t w))
          = processed_image_count w + (if accept (defect_ratio c) t then 1 else 0)
      \<and> ((fst (crop_attempt env original_path output_original_dir output_mask_dir
                  expanded_original expanded_mask crop_size t i valid_crop_counter w) = None
           \<and> fst (snd (crop_attempt env original_path output_original_dir output_mask_dir
                  expanded_original expanded_mask crop_size t i valid_crop_counter w))
              = valid_crop_counter)
          \<longleftrightarrow> \<not> accept (defect_ratio c) t)
      \<and> (rect H W expanded_original \<and> rect H W expanded_mask \<and> 0 < H \<and> 0 < crop_size
           \<and> accept (defect_ratio c) t \<longrightarrow>
            (\<exists>output_original_name output_mask_name w'.
                crop_attempt env original_path output_original_dir output_mask_dir
                  expanded_original expanded_mask crop_size t i valid_crop_counter w
                = (None, valid_crop_counter + 1, w')
              \<and> written w' = written w @ [output_original_name, output_mask_name]
              \<and> files w' = (files w)(output_original_name \<mapsto> Image (cropped_original c),
                                       output_mask_name \<mapsto> Image (cropped_mask c)))
          \<and> (\<exists>output_original_name output_mask_name w'.
                pair_attempt env ext output_original_dir output_mask_dir expanded_original
                  expanded_mask crop_size t w
                = (None, w')
              \<and> written w' = written w @ [output_original_name, output_mask_name]
              \<and> files w' = (files w)(output_original_name \<mapsto> Image (cropped_original c),
                                       output_mask_name \<mapsto> Image (cropped_mask c))
              \<and> processed_image_count w' = processed_image_count w + 1)))
   \<and> (rect H W expanded_original \<and> rect H W expanded_mask \<and> 0 < H \<and> 0 < crop_size
       \<and> crop_size \<le> min (int H) (int W) \<longrightarrow>
        (\<exists>w'. crop_loop env original_path output_original_dir output_mask_dir expanded_original
                 expanded_mask crop_size t n i valid_crop_counter w = (None, w')
             \<and> length (written w')
                 = length (written w)
                   + 2 * length (filter (\<lambda>c. accept (defect_ratio c) t)
                       (crop_candidates env expanded_original expanded_mask crop_size (draws w) n)))
      \<and> (\<exists>w'. pair_crop_loop env ext output_original_dir output_mask_dir expanded_original
                 expanded_mask crop_size t n w = (None, w')
             \<and> processed_image_count w'
                 = processed_image_count w
                   + length (filter (\<lambda>c. accept (defect_ratio c) t)
                       (crop_candidates env expanded_original expanded_mask crop_size (draws w) n)))
      \<and> (t1 \<le> t2 \<longrightarrow>
            set (filter (\<lambda>c. accept (defect_ratio c) t2)
                  (crop_candidates env expanded_original expanded_mask crop_size (draws w) n))
              \<subseteq> set (filter (\<lambda>c. accept (defect_ratio c) t1)
                  (crop_candidates env expanded_original expanded_mask crop_size (draws w) n))))"
proof -
  let ?CA = "crop_attempt env original_path output_original_dir output_mask_dir
                  expanded_original expanded_mask crop_size t i valid_crop_counter w"
  have p1: "accept ratio t \<longleftrightarrow> ratio \<ge> t"
    by (simp add: accept_def)
  have p2: "t1 \<le> t2 \<longrightarrow> accept ratio t2 \<longrightarrow> accept ratio t1"
    by (simp add: accept_def)
  have p3: "t1 \<le> t2 \<longrightarrow>
        set (filter (\<lambda>c. accept (defect_ratio c) t2) candidates)
          \<subseteq> set (filter (\<lambda>c. accept (defect_ratio c) t1) candidates)"
    by (rule impI) (rule accepted_antitone)
  have body: "processed_image_count
          (snd (pair_attempt env ext output_original_dir output_mask_dir expanded_original
                  expanded_mask crop_size t w))
          = processed_image_count w + (if accept (defect_ratio c) t then 1 else 0)
      \<and> ((fst ?CA = None \<and> fst (snd ?CA) = valid_crop_counter)
          \<longleftrightarrow> \<not> accept (defect_ratio c) t)
      \<and> (rect H W expanded_original \<and> rect H W expanded_mask \<and> 0 < H \<and> 0 < crop_size
           \<and> accept (defect_ratio c) t \<longrightarrow>
            (\<exists>output_original_name output_mask_name w'.
                ?CA = (None, valid_crop_counter + 1, w')
              \<and> written w' = written w @ [output_original_name, output_mask_name]
              \<and> files w' = (files w)(output_original_name \<mapsto> Image (cropped_original c),
                                       output_mask_name \<mapsto> Image (cropped_mask c)))
          \<and> (\<exists>output_original_name output_mask_name w'.
                pair_attempt env ext output_original_dir output_mask_dir expanded_original
                  expanded_mask crop_size t w
                = (None, w')
              \<and> written w' = written w @ [output_original_name, output_mask_name]
              \<and> files w' = (files w)(output_original_name \<mapsto> Image (cropped_original c),
                                       output_mask_name \<mapsto> Image (cropped_mask c))
              \<and> processed_image_count w' = processed_image_count w + 1))"
    if c: "draw_candidate env expanded_original expanded_mask crop_size (draws w) = Inr c"
  proof -
    have a: "processed_image_count
          (snd (pair_attempt env ext output_original_dir output_mask_dir expanded_original
                  expanded_mask crop_size t w))
          = processed_image_count w + (if accept (defect_ratio c) t then 1 else 0)"
      by (rule pair_attempt_count[OF c])
    have b: "(fst ?CA = None \<and> fst (snd ?CA) = valid_crop_counter)
          \<longleftrightarrow> \<not> accept (defect_ratio c) t"
    proof
      assume "fst ?CA = None \<and> fst (snd ?CA) = valid_crop_counter"
      then show "\<not> accept (defect_ratio c) t"
        using crop_attempt_not_rejected[OF c] by blast
    next
      assume "\<not> accept (defect_ratio c) t"
      from crop_attempt_rejected[OF c this]
      show "fst ?CA = None \<and> fst (snd ?CA) = valid_crop_counter"
        by simp
    qed
    have d: "(\<exists>output_original_name output_mask_name w'.
                ?CA = (None, valid_crop_counter + 1, w')
              \<and> written w' = written w @ [output_original_name, output_mask_name]
              \<and> files w' = (files w)(output_original_name \<mapsto> Image (cropped_original c),
                                       output_mask_name \<mapsto> Image (cropped_mask c)))
          \<and> (\<exists>output_original_name output_mask_name w'.
                pair_attempt env ext output_original_dir output_mask_dir expanded_original
                  expanded_mask crop_size t w
                = (None, w')
              \<and> written w' = written w @ [output_original_name, output_mask_name]
              \<and> files w' = (files w)(output_original_name \<mapsto> Image (cropped_original c),
                                       output_mask_name \<mapsto> Image (cropped_mask c))
              \<and> processed_image_count w' = processed_image_count w + 1)"
      if h: "rect H W expanded_original \<and> rect H W expanded_mask \<and> 0 < H \<and> 0 < crop_size
           \<and> accept (defect_ratio c) t"
    proof -
      from h have ro: "rect H W expanded_original" and rm: "rect H W expanded_mask"
        and H: "0 < H" and cs: "0 < crop_size" and acc: "accept (defect_ratio c) t"
        by simp_all
      note ne = candidate_nonempty[OF ro rm H c cs]
      from crop_attempt_accepted[OF c acc ne, of original_path output_original_dir
          output_mask_dir i valid_crop_counter]
        pair_attempt_accepted[OF c acc ne, of ext output_original_dir output_mask_dir]
      show ?thesis by blast
    qed
    from a b d show ?thesis by blast
  qed
  have loops: "(\<exists>w'. crop_loop env original_path output_original_dir output_mask_dir expanded_original
                 expanded_mask crop_size t n i valid_crop_counter w = (None, w')
             \<and> length (written w')
                 = length (written w)
                   + 2 * length (filter (\<lambda>c. accept (defect_ratio c) t)
                       (crop_candidates env expanded_original expanded_mask crop_size (draws w) n)))
      \<and> (\<exists>w'. pair_crop_loop env ext output_original_dir output_mask_dir expanded_original
                 expanded_mask crop_size t n w = (None, w')
             \<and> processed_image_count w'
                 = processed_image_count w
                   + length (filter (\<lambda>c. accept (defect_ratio c) t)
                       (crop_candidates env expanded_original expanded_mask crop_size (draws w) n)))
      \<and> (t1 \<le> t2 \<longrightarrow>
            set (filter (\<lambda>c. accept (defect_ratio c) t2)
                  (crop_candidates env expanded_original expanded_mask crop_size (draws w) n))
              \<subseteq> set (filter (\<lambda>c. accept (defect_ratio c) t1)
                  (crop_candidates env expanded_original expanded_mask crop_size (draws w) n)))"
    if h: "rect H W expanded_original \<and> rect H W expanded_mask \<and> 0 < H \<and> 0 < crop_size
       \<and> crop_size \<le> min (int H) (int W)"
  proof -
    from h have ro: "rect H W expanded_original" and rm: "rect H W expanded_mask"
      and H: "0 < H" and cs: "0 < crop_size" "crop_size \<le> int H" "crop_size \<le> int W"
      by simp_all
    from crop_loop_counts[OF ro rm H cs, of env original_path output_original_dir
        output_mask_dir t n i valid_crop_counter w]
      pair_crop_loop_counts[OF ro rm H cs, of env ext output_original_dir output_mask_dir t n w]
      accepted_antitone[of t1 t2]
    show ?thesis by blast
  qed
  from p1 p2 p3 body loops show ?thesis
    by blast
qed

theorem accept_monotone_witness:
  "draw_candidate \<lparr>rnd = \<lambda>k. k div 2, fl = \<lambda>x. x\<rparr> [[white, black], [gray, white]]
     [[gray, gray], [gray, white]] 1
     (draws \<lparr>files = Map.empty, written = [], draws = 0, stdout = [], processed_image_count = 7\<rparr>)
   = Inr \<lparr>start_x = 0, start_y = 0, cropped_original = [[white]], cropped_mask = [[gray]],
          defect_ratio = 0\<rparr>
   \<and> processed_image_count (snd (pair_attempt \<lparr>rnd = \<lambda>k. k div 2, fl = \<lambda>x. x\<rparr> ''.png''
        ''out'' ''outm'' [[white, black], [gray, white]] [[gray, gray], [gray, white]] 1 0
        \<lparr>files = Map.empty, written = [], draws = 0, stdout = [], processed_image_count = 7\<rparr>))
     = 8
   \<and> fst (snd (crop_attempt \<lparr>rnd = \<lambda>k. k div 2, fl = \<lambda>x. x\<rparr> ''in/12.png'' ''out'' ''outm''
        [[white, black], [gray, white]] [[gray, gray], [gray, white]] 1 0 0 0
        \<lparr>files = Map.empty, written = [], draws = 0, stdout = [], processed_image_count = 7\<rparr>))
     = 1
   \<and> crop_candidates \<lparr>rnd = \<lambda>k. k div 2, fl = \<lambda>x. x\<rparr> [[white, black], [gray, white]]
       [[gray, gray], [gray, white]] 1 0 2
     = [\<lparr>start_x = 0, start_y = 0, cropped_original = [[white]], cropped_mask = [[gray]],
          defect_ratio = 0\<rparr>,
        \<lparr>start_x = 1, start_y = 1, cropped_original = [[white]], cropped_mask = [[white]],
          defect_ratio = 1\<rparr>]
   \<and> written (snd (crop_loop \<lparr>rnd = \<lambda>k. k div 2, fl = \<lambda>x. x\<rparr> ''in/12.png'' ''out'' ''outm''
        [[white, black], [gray, white]] [[gray, gray], [gray, white]] 1 (1 / 2) 2 0 0
        \<lparr>files = Map.empty, written = [], draws = 0, stdout = [], processed_image_count = 7\<rparr>))
     = [''out/12_cropped_1.png'', ''outm/12_cropped_1_mask.png'']
   \<and> written (snd (crop_loop \<lparr>rnd = \<lambda>k. k div 2, fl = \<lambda>x. x\<rparr> ''in/12.png'' ''out'' ''outm''
        [[white, black], [gray, white]] [[gray, gray], [gray, white]] 1 0 2 0 0
        \<lparr>files = Map.empty, written = [], draws = 0, stdout = [], processed_image_count = 7\<rparr>))
     = [''out/12_cropped_1.png'', ''outm/12_cropped_1_mask.png'',
        ''out/12_cropped_2.png'', ''outm/12_cropped_2_mask.png'']
   \<and> processed_image_count (snd (pair_crop_loop \<lparr>rnd = \<lambda>k. k div 2, fl = \<lambda>x. x\<rparr> ''.png''
        ''out'' ''outm'' [[white, black], [gray, white]] [[gray, gray], [gray, white]] 1 (1 / 2) 2
        \<lparr>files = Map.empty, written = [], draws = 0, stdout = [], processed_image_count = 7\<rparr>))
     = 8
   \<and> processed_image_count (snd (pair_crop_loop \<lparr>rnd = \<lambda>k. k div 2, fl = \<lambda>x. x\<rparr> ''.png''
        ''out'' ''outm'' [[white, black], [gray, white]] [[gray, gray], [gray, white]] 1 0 2
        \<lparr>files = Map.empty, written = [], draws = 0, stdout = [], processed_image_count = 7\<rparr>))
     = 9
   \<and> set (filter (\<lambda>c. accept (defect_ratio c) (1 / 2))
          (crop_candidates \<lparr>rnd = \<lambda>k. k div 2, fl = \<lambda>x. x\<rparr> [[white, black], [gray, white]]
             [[gray, gray], [gray, white]] 1
             (draws \<lparr>files = Map.empty, written = [], draws = 0, stdout = [],
                      processed_image_count = 7\<rparr>) 2))
       \<subseteq> set (filter (\<lambda>c. accept (defect_ratio c) 0)
          (crop_candidates \<lparr>rnd = \<lambda>k. k div 2, fl = \<lambda>x. x\<rparr> [[white, black], [gray, white]]
             [[gray, gray], [gray, white]] 1
             (draws \<lparr>files = Map.empty, written = [], draws = 0, stdout = [],
                      processed_image_count = 7\<rparr>) 2))"
proof -
  let ?env = "\<lparr>rnd = \<lambda>k. k div 2, fl = \<lambda>x. x\<rparr>"
  let ?o = "[[white, black], [gray, white]]"
  let ?m = "[[gray, gray], [gray, white]]"
  let ?w = "\<lparr>files = Map.empty, written = [], draws = 0, stdout = [], processed_image_count = 7\<rparr>"
  have h: "rect 2 2 ?o \<and> rect 2 2 ?m \<and> (0::nat) < 2 \<and> (0::int) < 1 \<and> (1::int) \<le> min (int 2) (int 2)"
    by (simp add: rect_def)
  have le: "(0::rat) \<le> 1 / 2"
    by simp
  note loops = accept_monotone[where env = ?env and expanded_original = ?o and expanded_mask = ?m
        and crop_size = 1 and w = ?w and H = 2 and W = 2 and n = 2
        and ?t1.0 = 0 and ?t2.0 = "1 / 2",
        THEN conjunct2, THEN conjunct2, THEN conjunct2, THEN conjunct2, THEN mp, OF h]
  have sub: "set (filter (\<lambda>c. accept (defect_ratio c) (1 / 2))
                   (crop_candidates ?env ?o ?m 1 (draws ?w) 2))
             \<subseteq> set (filter (\<lambda>c. accept (defect_ratio c) 0)
                   (crop_candidates ?env ?o ?m 1 (draws ?w) 2))"
    by (rule loops[THEN conjunct2, THEN conjunct2, THEN mp, OF le])
  have run: "draw_candidate ?env ?o ?m 1 (draws ?w)
      = Inr \<lparr>start_x = 0, start_y = 0, cropped_original = [[white]], cropped_mask = [[gray]],
          defect_ratio = 0\<rparr>"
    "crop_candidates ?env ?o ?m 1 0 2
     = [\<lparr>start_x = 0, start_y = 0, cropped_original = [[white]], cropped_mask = [[gray]],
          defect_ratio = 0\<rparr>,
        \<lparr>start_x = 1, start_y = 1, cropped_original = [[white]], cropped_mask = [[white]],
          defect_ratio = 1\<rparr>]"
    "written (snd (crop_loop ?env ''in/12.png'' ''out'' ''outm'' ?o ?m 1 (1 / 2) 2 0 0 ?w))
     = [''out/12_cropped_1.png'', ''outm/12_cropped_1_mask.png'']"
    "written (snd (crop_loop ?env ''in/12.png'' ''out'' ''outm'' ?o ?m 1 0 2 0 0 ?w))
     = [''out/12_cropped_1.png'', ''outm/12_cropped_1_mask.png'',
        ''out/12_cropped_2.png'', ''outm/12_cropped_2_mask.png'']"
    "processed_image_count (snd (pair_crop_loop ?env ''.png'' ''out'' ''outm'' ?o ?m 1 (1 / 2) 2 ?w))
     = 8"
    "processed_image_count (snd (pair_crop_loop ?env ''.png'' ''out'' ''outm'' ?o ?m 1 0 2 ?w))
     = 9"
    by code_simp+
  let ?c = "\<lparr>start_x = 0, start_y = 0, cropped_original = [[white]], cropped_mask = [[gray]],
          defect_ratio = 0\<rparr>"
  note body = accept_monotone[where env = ?env and expanded_original = ?o and expanded_mask = ?m
        and crop_size = 1 and w = ?w and H = 2 and W = 2 and c = ?c and t = 0
        and ext = "''.png''" and original_path = "''in/12.png''"
        and output_original_dir = "''out''" and output_mask_dir = "''outm''"
        and i = 0 and valid_crop_counter = 0,
        THEN conjunct2, THEN conjunct2, THEN conjunct2, THEN conjunct1, THEN mp, OF run(1)]
  have acc: "accept (defect_ratio ?c) 0"
    by (simp add: accept_def)
  have counted: "processed_image_count
      (snd (pair_attempt ?env ''.png'' ''out'' ''outm'' ?o ?m 1 0 ?w)) = 8"
    using body[THEN conjunct1] acc by simp
  have h2: "rect 2 2 ?o \<and> rect 2 2 ?m \<and> (0::nat) < 2 \<and> (0::int) < 1
            \<and> accept (defect_ratio ?c) 0"
    using h acc by simp
  have saved: "fst (snd (crop_attempt ?env ''in/12.png'' ''out'' ''outm'' ?o ?m 1 0 0 0 ?w)) = 1"
    using body[THEN conjunct2, THEN conjunct2, THEN mp, OF h2, THEN conjunct1] by auto
  show ?thesis
    by (intro conjI) (rule run sub counted saved)+
qed

subsection \<open>Failures in a batch\<close>

lemma crop_image_unreadable:
  assumes "imread (files w) original_path = None \<or> imread (files w) mask_path = None"
  shows "crop_image env original_path mask_path output_original_dir output_mask_dir
           crop_size_ratio defect_threshold num_crops w
         = say (Reported FileNotFoundError original_path) w"
  using assms
  by (auto simp: crop_image_def crop_image_try_def split: option.splits)

lemma crop_image_mismatch:
  assumes "imread (files w) original_path = Some original_image"
    and "imread (files w) mask_path = Some mask_image"
    and "width original_image \<noteq> width mask_image \<or> height original_image \<noteq> height mask_image"
  shows "crop_image env original_path mask_path output_original_dir output_mask_dir
           crop_size_ratio defect_threshold num_crops w
         = say (Reported ValueError original_path) w"
  using assms
  by (auto simp: crop_image_def crop_image_try_def Let_def)

lemma batch_crop_loop_append:
  "batch_crop_loop env d md od omd thr n (xs @ ys) w
   = batch_crop_loop env d md od omd thr n ys (batch_crop_loop env d md od omd thr n xs w)"
  by (induction xs arbitrary: w) simp_all

lemma say_say: "say b (say a w) = w\<lparr>stdout := stdout w @ [a, b]\<rparr>"
  by (simp add: say_def)

text \<open>
  C7. In \<open>batch_crop_images\<close>, a pair whose original or mask cannot be read, or whose
  shapes differ, changes nothing but the output: the pair is announced, the error is
  reported, and the loop goes on with the files that follow, from a state with the same
  files, written paths, draws and counter. \<open>crop_image\<close> returns a state and never an
  exception, so no such error leaves the loop.
\<close>

theorem failed_pair_is_skipped:
  assumes chosen: "filter (\<lambda>f. exists_path w (join expanded_original_dir f) \<and> \<not> contains ''_mask'' f)
                     listing = before @ original_file # after"
    and w1: "w1 = batch_crop_loop env expanded_original_dir expanded_mask_dir output_original_dir
                    output_mask_dir defect_threshold num_crops before w"
    and found: "exists_path w1 (join expanded_mask_dir (mask_file_of original_file))"
    and failing:
      "imread (files w1) (join expanded_original_dir original_file) = None
       \<or> imread (files w1) (join expanded_mask_dir (mask_file_of original_file)) = None
       \<or> (\<exists>original_image mask_image.
             imread (files w1) (join expanded_original_dir original_file) = Some original_image
           \<and> imread (files w1) (join expanded_mask_dir (mask_file_of original_file))
               = Some mask_image
           \<and> (width original_image \<noteq> width mask_image
              \<or> height original_image \<noteq> height mask_image))"
  shows "\<exists>e. batch_crop_images env listing expanded_original_dir expanded_mask_dir
               output_original_dir output_mask_dir defect_threshold num_crops w
             = batch_crop_loop env expanded_original_dir expanded_mask_dir output_original_dir
                 output_mask_dir defect_threshold num_crops after
                 (w1\<lparr>stdout := stdout w1 @ [Processing original_file (mask_file_of original_file),
                                             Reported e (join expanded_original_dir original_file)]\<rparr>)"
proof -
  let ?p = "join expanded_original_dir original_file"
  let ?m = "join expanded_mask_dir (mask_file_of original_file)"
  let ?w2 = "say (Processing original_file (mask_file_of original_file)) w1"
  have f: "files ?w2 = files w1"
    by (simp add: say_def)
  have "\<exists>e. crop_image env ?p ?m output_original_dir output_mask_dir 1 defect_threshold
               num_crops ?w2 = say (Reported e ?p) ?w2"
    using failing crop_image_unreadable[of ?w2 ?p ?m] crop_image_mismatch[of ?w2 ?p _ ?m]
    unfolding f by metis
  then obtain e where
    "batch_crop_step env expanded_original_dir expanded_mask_dir output_original_dir
       output_mask_dir defect_threshold num_crops original_file w1 = say (Reported e ?p) ?w2"
    using found by (auto simp: batch_crop_step_def Let_def)
  then have "batch_crop_images env listing expanded_original_dir expanded_mask_dir
               output_original_dir output_mask_dir defect_threshold num_crops w
             = batch_crop_loop env expanded_original_dir expanded_mask_dir output_original_dir
                 output_mask_dir defect_threshold num_crops after (say (Reported e ?p) ?w2)"
    by (simp add: batch_crop_images_def chosen batch_crop_loop_append w1)
  then show ?thesis
    unfolding say_say by blast
qed

theorem failed_pair_is_skipped_witness:
  "(\<exists>e. batch_crop_images \<lparr>rnd = \<lambda>k. 0, fl = \<lambda>x. x\<rparr> [''a.png'', ''b.png''] ''o'' ''m''
           ''out'' ''outm'' (1 / 2) 1
           \<lparr>files = [''o/a.png'' \<mapsto> Undecodable, ''m/a_mask.png'' \<mapsto> Image [[white]],
                     ''o/b.png'' \<mapsto> Image [[white]], ''m/b_mask.png'' \<mapsto> Image [[white]]],
            written = [], draws = 0, stdout = [], processed_image_count = 0\<rparr>
         = batch_crop_loop \<lparr>rnd = \<lambda>k. 0, fl = \<lambda>x. x\<rparr> ''o'' ''m'' ''out'' ''outm'' (1 / 2) 1
             [''b.png'']
             \<lparr>files = [''o/a.png'' \<mapsto> Undecodable, ''m/a_mask.png'' \<mapsto> Image [[white]],
                       ''o/b.png'' \<mapsto> Image [[white]], ''m/b_mask.png'' \<mapsto> Image [[white]]],
              written = [], draws = 0,
              stdout = [Processing ''a.png'' ''a_mask.png'', Reported e ''o/a.png''],
              processed_image_count = 0\<rparr>)
   \<and> written (batch_crop_images \<lparr>rnd = \<lambda>k. 0, fl = \<lambda>x. x\<rparr> [''a.png'', ''b.png''] ''o'' ''m''
       ''out'' ''outm'' (1 / 2) 1
       \<lparr>files = [''o/a.png'' \<mapsto> Undecodable, ''m/a_mask.png'' \<mapsto> Image [[white]],
                 ''o/b.png'' \<mapsto> Image [[white]], ''m/b_mask.png'' \<mapsto> Image [[white]]],
        written = [], draws = 0, stdout = [], processed_image_count = 0\<rparr>)
     = [''out/b_cropped_1.png'', ''outm/b_cropped_1_mask.png'']
   \<and> stdout (batch_crop_images \<lparr>rnd = \<lambda>k. 0, fl = \<lambda>x. x\<rparr> [''a.png'', ''b.png''] ''o'' ''m''
       ''out'' ''outm'' (1 / 2) 1
       \<lparr>files = [''o/a.png'' \<mapsto> Undecodable, ''m/a_mask.png'' \<mapsto> Image [[white]],
                 ''o/b.png'' \<mapsto> Image [[white]], ''m/b_mask.png'' \<mapsto> Image [[white]]],
        written = [], draws = 0, stdout = [], processed_image_count = 0\<rparr>)
     = [Processing ''a.png'' ''a_mask.png'', Reported FileNotFoundError ''o/a.png'',
        Processing ''b.png'' ''b_mask.png'', AttemptRatio 1 1,
        Saved ''out/b_cropped_1.png'' ''outm/b_cropped_1_mask.png'']"
proof -
  let ?env = "\<lparr>rnd = \<lambda>k. 0, fl = \<lambda>x. x\<rparr>"
  let ?w = "\<lparr>files = [''o/a.png'' \<mapsto> Undecodable, ''m/a_mask.png'' \<mapsto> Image [[white]],
                     ''o/b.png'' \<mapsto> Image [[white]], ''m/b_mask.png'' \<mapsto> Image [[white]]],
            written = [], draws = 0, stdout = [], processed_image_count = 0\<rparr>"
  have names: "mask_file_of ''a.png'' = ''a_mask.png''" "join ''o'' ''a.png'' = ''o/a.png''"
    "join ''m'' ''a_mask.png'' = ''m/a_mask.png''"
    by code_simp+
  have chosen: "filter (\<lambda>f. exists_path ?w (join ''o'' f) \<and> \<not> contains ''_mask'' f)
                  [''a.png'', ''b.png''] = [] @ ''a.png'' # [''b.png'']"
    by code_simp
  have w1: "?w = batch_crop_loop ?env ''o'' ''m'' ''out'' ''outm'' (1 / 2) 1 [] ?w"
    by simp
  have found: "exists_path ?w (join ''m'' (mask_file_of ''a.png''))"
    by (simp add: names exists_path_def)
  have failing: "imread (files ?w) (join ''o'' ''a.png'') = None
       \<or> imread (files ?w) (join ''m'' (mask_file_of ''a.png'')) = None
       \<or> (\<exists>original_image mask_image.
             imread (files ?w) (join ''o'' ''a.png'') = Some original_image
           \<and> imread (files ?w) (join ''m'' (mask_file_of ''a.png'')) = Some mask_image
           \<and> (width original_image \<noteq> width mask_image
              \<or> height original_image \<noteq> height mask_image))"
    by (simp add: names imread_def)
  have skipped: "\<exists>e. batch_crop_images ?env [''a.png'', ''b.png''] ''o'' ''m''
           ''out'' ''outm'' (1 / 2) 1 ?w
         = batch_crop_loop ?env ''o'' ''m'' ''out'' ''outm'' (1 / 2) 1 [''b.png'']
             (?w\<lparr>stdout := stdout ?w @ [Processing ''a.png'' (mask_file_of ''a.png''),
                                         Reported e (join ''o'' ''a.png'')]\<rparr>)"
    by (rule failed_pair_is_skipped[OF chosen w1 found failing])
  have run: "written (batch_crop_images ?env [''a.png'', ''b.png''] ''o'' ''m''
       ''out'' ''outm'' (1 / 2) 1 ?w)
     = [''out/b_cropped_1.png'', ''outm/b_cropped_1_mask.png'']"
    "stdout (batch_crop_images ?env [''a.png'', ''b.png''] ''o'' ''m''
       ''out'' ''outm'' (1 / 2) 1 ?w)
     = [Processing ''a.png'' ''a_mask.png'', Reported FileNotFoundError ''o/a.png'',
        Processing ''b.png'' ''b_mask.png'', AttemptRatio 1 1,
        Saved ''out/b_cropped_1.png'' ''outm/b_cropped_1_mask.png'']"
    by code_simp+
  show ?thesis
    using skipped run unfolding names by simp
qed

text \<open>
  \<open>process_image_pair\<close> handles the same failures the same way, and \<open>expand_image\<close>
  raises on a shape mismatch before it writes anything; its caller
  \<open>batch_expand_images\<close> catches the exception and goes on.
\<close>

lemma process_image_pair_unreadable:
  assumes "imread (files w) original_path = None \<or> imread (files w) mask_path = None"
  shows "process_image_pair env original_path mask_path output_original_dir output_mask_dir
           num_augmentations num_crops_per_aug defect_threshold expansion_target_size crop_size w
         = say (Reported FileNotFoundError original_path) w"
  using assms
  by (auto simp: process_image_pair_def process_image_pair_try_def split: option.splits)

lemma process_image_pair_mismatch:
  assumes "imread (files w) original_path = Some original_image"
    and "imread (files w) mask_path = Some mask_image"
    and "shape original_image \<noteq> shape mask_image"
  shows "process_image_pair env original_path mask_path output_original_dir output_mask_dir
           num_augmentations num_crops_per_aug defect_threshold expansion_target_size crop_size w
         = say (Reported ValueError original_path) w"
  using assms
  by (simp add: process_image_pair_def process_image_pair_try_def)

lemma expand_image_mismatch:
  assumes "width original_image \<noteq> width mask_image \<or> height original_image \<noteq> height mask_image"
  shows "expand_image env original_path original_image mask_image num_expansions
           output_original_dir output_mask_dir w = (Some ValueError, w)"
  using assms by (auto simp: expand_image_def)

subsection \<open>Mask extraction\<close>

lemma channels_equal_0: "channels_equal 0 p \<longleftrightarrow> p = black"
  by (cases p) (auto simp: channels_equal_def black_def uint_0_iff)

lemma convert_to_gray_white_map:
  "convert_to_gray_white g = map (map (\<lambda>p. if p = black then gray else p)) g"
proof -
  have row: "map (\<lambda>(s, d). if s then gray else d) (zip (map (channels_equal 0) r) r)
             = map (\<lambda>p. if p = black then gray else p) r" for r :: "pixel list"
    by (induction r) (simp_all add: channels_equal_0)
  have "map (\<lambda>(s_row, d_row). map (\<lambda>(s, d). if s then gray else d) (zip s_row d_row))
            (zip (map (map (channels_equal 0)) g) g)
        = map (map (\<lambda>p. if p = black then gray else p)) g"
    by (induction g) (simp_all add: row)
  then show ?thesis
    by (simp add: convert_to_gray_white_def assign_const_where_def np_all_eq_def)
qed

lemma gray_not_black: "gray \<noteq> black" "black \<noteq> gray"
  by (simp_all add: gray_def black_def)

text \<open>
  C10. \<open>convert_to_gray_white\<close> keeps the shape of the grid, maps every pure-black pixel
  to gray and leaves every other pixel as it is; its output has no pure-black pixel, and
  applying it twice gives what applying it once gives.
\<close>

theorem convert_to_gray_white_spec:
  "length (convert_to_gray_white g) = length g
   \<and> (\<forall>i<length g. length (convert_to_gray_white g ! i) = length (g ! i)
        \<and> (\<forall>j<length (g ! i).
              (g ! i ! j = black \<longrightarrow> convert_to_gray_white g ! i ! j = gray)
            \<and> (g ! i ! j \<noteq> black \<longrightarrow> convert_to_gray_white g ! i ! j = g ! i ! j)))
   \<and> (\<forall>r\<in>set (convert_to_gray_white g). black \<notin> set r)
   \<and> convert_to_gray_white (convert_to_gray_white g) = convert_to_gray_white g"
proof -
  let ?f = "\<lambda>p. if p = black then gray else p"
  have idem: "?f (?f p) = ?f p" for p
    by (simp add: gray_not_black)
  have "map (map ?f) (map (map ?f) g) = map (map ?f) g"
    by (simp add: idem comp_def)
  moreover have "\<forall>r\<in>set (map (map ?f) g). black \<notin> set r"
    by (auto simp: gray_not_black)
  ultimately show ?thesis
    by (simp add: convert_to_gray_white_map)
qed

theorem convert_to_gray_white_spec_witness:
  "convert_to_gray_white [[black, white], [gray, black]] = [[gray, white], [gray, gray]]
   \<and> black \<notin> set [gray, white] \<and> black \<notin> set [gray, gray]
   \<and> convert_to_gray_white (convert_to_gray_white [[black, white], [gray, black]])
       = convert_to_gray_white [[black, white], [gray, black]]"
  using convert_to_gray_white_spec [of "[[black, white], [gray, black]]"]
  by (simp add: convert_to_gray_white_map black_def white_def gray_def)

lemma rect_length: "rect h w g \<Longrightarrow> length g = h"
  by (simp add: rect_def)

lemma rect_nth: "rect h w g \<Longrightarrow> i < h \<Longrightarrow> length (g ! i) = w"
  by (simp add: rect_def list_all_length)

lemma rect_shape_eq: "rect h w a \<Longrightarrow> rect h w b \<Longrightarrow> shape a = shape b"
  by (cases a; cases b) (auto simp: rect_def shape_def height_def width_def)

lemma np_any_all_eq:
  "rect h w g \<Longrightarrow> np_any (np_all_eq v g) \<longleftrightarrow> (\<exists>i<h. \<exists>j<w. channels_equal v (g ! i ! j))"
proof -
  assume r: "rect h w g"
  have "np_any (np_all_eq v g) \<longleftrightarrow> (\<exists>i<length g. \<exists>j<length (g ! i). channels_equal v (g ! i ! j))"
    by (simp add: np_any_def np_all_eq_def list_ex_length cong: conj_cong)
  also have "\<dots> \<longleftrightarrow> (\<exists>i<h. \<exists>j<w. channels_equal v (g ! i ! j))"
    using r by (auto simp: rect_def list_all_length)
  finally show ?thesis .
qed

lemma assign_where_rect:
  assumes "length sel = h" "\<forall>i<h. length (sel ! i) = w" "rect h w dst" "rect h w src"
  shows "rect h w (assign_where sel dst src)"
    and "i < h \<Longrightarrow> j < w \<Longrightarrow>
         assign_where sel dst src ! i ! j = (if sel ! i ! j then src ! i ! j else dst ! i ! j)"
  using assms
  by (auto simp: assign_where_def rect_def list_all_length)

lemma extract_pixels:
  assumes "rect h w lbl" "rect h w msk"
  shows "rect h w (assign_where (np_all_eq v lbl) (zeros_like msk) msk)"
    and "i < h \<Longrightarrow> j < w \<Longrightarrow>
         assign_where (np_all_eq v lbl) (zeros_like msk) msk ! i ! j
           = (if channels_equal v (lbl ! i ! j) then msk ! i ! j else black)"
proof -
  have z: "rect h w (zeros_like msk)"
    using assms by (simp add: zeros_like_def rect_def list_all_length)
  have s: "length (np_all_eq v lbl) = h" "\<forall>i<h. length (np_all_eq v lbl ! i) = w"
    using assms by (simp_all add: np_all_eq_def rect_def list_all_length)
  show "rect h w (assign_where (np_all_eq v lbl) (zeros_like msk) msk)"
    by (rule assign_where_rect(1)[OF s z assms(2)])
  show "assign_where (np_all_eq v lbl) (zeros_like msk) msk ! i ! j
           = (if channels_equal v (lbl ! i ! j) then msk ! i ! j else black)" if "i < h" "j < w"
    using assign_where_rect(2)[OF s z assms(2) that] that assms
    by (simp add: np_all_eq_def zeros_like_def rect_def list_all_length)
qed

text \<open>
  C9. For a label grid and a mask grid of the same shape, the extraction returns nothing
  exactly when no label pixel has all three channels equal to the defect id. Otherwise it
  returns a grid of that shape that holds the mask's pixel wherever the label pixel
  matches and black elsewhere; \<open>convert_to_gray_white\<close>, which the caller applies next,
  turns each black pixel of it into gray and keeps the others.
\<close>

theorem extract_defect_mask_spec:
  assumes "fs label_path = Some (Image lbl)" and "fs mask_path = Some (Image msk)"
    and "rect h w lbl" and "rect h w msk"
  shows "(extract_defect_mask fs label_path mask_path defect_id = None
            \<longleftrightarrow> \<not> (\<exists>i<h. \<exists>j<w. channels_equal defect_id (lbl ! i ! j)))
       \<and> (\<forall>new_mask. extract_defect_mask fs label_path mask_path defect_id = Some new_mask \<longrightarrow>
             rect h w new_mask
           \<and> (\<forall>i<h. \<forall>j<w.
                  new_mask ! i ! j
                    = (if channels_equal defect_id (lbl ! i ! j) then msk ! i ! j else black)
                \<and> convert_to_gray_white new_mask ! i ! j
                    = (if new_mask ! i ! j = black then gray else new_mask ! i ! j)))"
proof -
  let ?r = "assign_where (np_all_eq defect_id lbl) (zeros_like msk) msk"
  have e: "extract_defect_mask fs label_path mask_path defect_id
           = (if \<not> np_any (np_all_eq defect_id lbl) then None else Some ?r)"
    using assms rect_shape_eq[OF assms(3,4)]
    by (simp add: extract_defect_mask_def safe_imread_def imread_def Let_def)
  have c: "convert_to_gray_white ?r ! i ! j = (if ?r ! i ! j = black then gray else ?r ! i ! j)"
    if "i < h" "j < w" for i j
    using extract_pixels(1)[OF assms(3,4), of defect_id] that
    by (simp add: convert_to_gray_white_map rect_def list_all_length)
  show ?thesis
    unfolding e using np_any_all_eq[OF assms(3), of defect_id] extract_pixels[OF assms(3,4)] c
    by auto
qed

theorem extract_defect_mask_spec_witness:
  "extract_defect_mask
     [''l.png'' \<mapsto> Image [[(3, 3, 3), (0, 0, 0)]], ''m.png'' \<mapsto> Image [[white, (9, 9, 9)]]]
     ''l.png'' ''m.png'' 3 = Some [[white, black]]
   \<and> convert_to_gray_white [[white, black]] = [[white, gray]]
   \<and> extract_defect_mask
     [''l.png'' \<mapsto> Image [[(3, 3, 3), (0, 0, 0)]], ''m.png'' \<mapsto> Image [[white, (9, 9, 9)]]]
     ''l.png'' ''m.png'' 4 = None"
  using extract_defect_mask_spec
    [of "[''l.png'' \<mapsto> Image [[(3, 3, 3), (0, 0, 0)]], ''m.png'' \<mapsto> Image [[white, (9, 9, 9)]]]"
        "''l.png''" "[[(3, 3, 3), (0, 0, 0)]]" "''m.png''" "[[white, (9, 9, 9)]]" 1 2 3]
  by (simp add: extract_defect_mask_def safe_imread_def imread_def shape_def height_def
      width_def np_all_eq_def np_any_def channels_equal_def assign_where_def zeros_like_def
      convert_to_gray_white_map black_def white_def gray_def)

end
